theory Spec2Isabelle
  imports Main "HOL-Library.AList" "HOL-Library.Multiset"
begin

section \<open>The world the script runs in\<close>

text \<open>
  \<^verbatim>\<open>generate_icons.py\<close> reads one file, resizes the decoded image and writes thirty
  files through the Pillow library. The script is embedded as written; what it calls
  in Pillow and in the operating system is modelled below at the level at which the
  script observes it:
  \<^item> an image has a size and pixel data; the pixel data is kept symbolically (where it
    was decoded from and which resampling produced it), since the resampling
    arithmetic is floating point and plays no part in what the script decides;
  \<^item> a file is a PNG holding one image, an ICO holding a list of frames, or bytes no
    decoder accepts;
  \<^item> opening a path for writing fails when its parent directory is missing, or when
    the operating system refuses the path (\<open>denied\<close>: permissions and the like);
  \<^item> an exception is a value of \<open>error\<close>, returned with the world as it was when the
    exception was raised, since files written before stay written.

  Two things are left out. Pixel modes: every decoded image is taken to be in a mode
  that \<^verbatim>\<open>resize\<close> and the PNG and ICO encoders accept, as the modes of a PNG file
  are. Failures while the bytes are written (a full disk): a path that opens for
  writing is written.
\<close>

type_synonym path = string

datatype error =
  FileNotFoundError | UnidentifiedImageError | PermissionError | ValueError
  | ZeroDivisionError

datatype raster = Original nat | Resampled raster "nat \<times> nat"

record image =
  isize :: "nat \<times> nat"
  pixel_data :: raster

datatype format = PNG | ICO

datatype content = Png image | Ico "image list" | Junk

record world =
  dirs :: "path set"
  denied :: "path set"
  files :: "path \<rightharpoonup> content"
  stdout :: "string list"

type_synonym outcome = "(error \<times> world) + world"

subsection \<open>Strings and paths\<close>

text \<open>\<^verbatim>\<open>str.endswith\<close>.\<close>

definition endswith :: "string \<Rightarrow> string \<Rightarrow> bool" where
  "endswith s suf = (take (length suf) (rev s) = rev suf)"

text \<open>The decimal text of a number, as an f-string renders an \<^verbatim>\<open>int\<close>.\<close>

definition digit_char :: "nat \<Rightarrow> char" where
  "digit_char d = ''0123456789'' ! d"

function str_nat :: "nat \<Rightarrow> string" where
  "str_nat n = (if n < 10 then [digit_char n] else str_nat (n div 10) @ [digit_char (n mod 10)])"
  by pat_completeness auto
termination
  by (relation "measure (\<lambda>n. n)") auto

declare str_nat.simps [simp del]

text \<open>
  The directory a relative path lies in (the empty path is the working directory), the
  last component of a path, and its extension as \<^verbatim>\<open>os.path.splitext\<close> finds it:
  from the last dot of the last component, leading dots apart.
\<close>

definition parent_dir :: "path \<Rightarrow> path" where
  "parent_dir p = rev (drop 1 (dropWhile (\<lambda>c. c \<noteq> CHR ''/'') (rev p)))"

definition basename :: "path \<Rightarrow> string" where
  "basename p = rev (takeWhile (\<lambda>c. c \<noteq> CHR ''/'') (rev p))"

definition lower_char :: "char \<Rightarrow> char" where
  "lower_char c =
     (case map_of (zip ''ABCDEFGHIJKLMNOPQRSTUVWXYZ'' ''abcdefghijklmnopqrstuvwxyz'') c of
        Some l \<Rightarrow> l
      | None \<Rightarrow> c)"

definition extension :: "path \<Rightarrow> string" where
  "extension p =
     (let stem = dropWhile (\<lambda>c. c = CHR ''.'') (basename p)
      in if CHR ''.'' \<in> set stem
         then map lower_char (CHR ''.'' # rev (takeWhile (\<lambda>c. c \<noteq> CHR ''.'') (rev stem)))
         else [])"

subsection \<open>Python dictionaries\<close>

text \<open>
  A dictionary keeps its keys in insertion order; storing under a key that is already
  there replaces the value where the key stands. A dictionary display stores its pairs
  from left to right, and \<^verbatim>\<open>items()\<close> lists them in order.
\<close>

definition dict_literal :: "('k \<times> 'v) list \<Rightarrow> ('k \<times> 'v) list" where
  "dict_literal kvs = foldl (\<lambda>d (k, v). AList.update k v d) [] kvs"

subsection \<open>Pillow: opening, resizing, encoding, saving\<close>

text \<open>
  \<^verbatim>\<open>Image.open\<close> followed by the first use of the pixels: the file must exist and
  hold a raster some decoder accepts. (Pillow reads the pixels lazily, at the first
  \<^verbatim>\<open>resize\<close>; nothing happens between the two in the script, so the model decodes
  at once.) An ICO opens as its largest frame.
\<close>

definition area :: "image \<Rightarrow> nat" where
  "area im = fst (isize im) * snd (isize im)"

fun largest :: "image \<Rightarrow> image list \<Rightarrow> image" where
  "largest best [] = best"
| "largest best (f # fs) = largest (if area best < area f then f else best) fs"

fun decode :: "content \<Rightarrow> error + image" where
  "decode (Png im) = Inr im"
| "decode (Ico []) = Inl UnidentifiedImageError"
| "decode (Ico (f # fs)) = Inr (largest f fs)"
| "decode Junk = Inl UnidentifiedImageError"

definition img_open :: "path \<Rightarrow> world \<Rightarrow> error + image" where
  "img_open fp w = (case files w fp of None \<Rightarrow> Inl FileNotFoundError | Some c \<Rightarrow> decode c)"

text \<open>
  \<^verbatim>\<open>Image.resize(size, LANCZOS)\<close> returns a new image of exactly the size asked for
  and leaves the image it is called on as it was. Asked for the size the image has, it
  returns a copy; a side of zero is a \<^verbatim>\<open>ValueError\<close>. Every call of the script
  passes the same filter, so the filter is not recorded.
\<close>

definition resize :: "image \<Rightarrow> nat \<times> nat \<Rightarrow> error + image" where
  "resize im sz =
     (if isize im = sz then Inr im
      else if fst sz < 1 \<or> snd sz < 1 then Inl ValueError
      else Inr \<lparr>isize = sz, pixel_data = Resampled (pixel_data im) sz\<rparr>)"

text \<open>
  \<^verbatim>\<open>Image.thumbnail\<close>, which the ICO encoder uses for a frame smaller than the
  image: the largest size inside the box that keeps the aspect ratio. Pillow computes
  the ratio in floating point; here it is exact.
\<close>

definition adiff :: "nat \<Rightarrow> nat \<Rightarrow> nat" where
  "adiff a b = (if a < b then b - a else a - b)"

definition thumbnail_size :: "nat \<times> nat \<Rightarrow> nat \<times> nat \<Rightarrow> error + (nat \<times> nat) option" where
  "thumbnail_size sz box =
     (let w = fst sz; h = snd sz; x = fst box; y = snd box
      in if w \<le> x \<and> h \<le> y then Inr None
         else if h = 0 \<or> y = 0 then Inl ZeroDivisionError
         else if w * y \<le> x * h then
           (let lo = (y * w) div h; hi = (y * w + h - 1) div h;
                pick = (if adiff (w * y) (lo * h) \<le> adiff (w * y) (hi * h) then lo else hi)
            in Inr (Some (max pick 1, y)))
         else
           (let lo = (x * h) div w; hi = (x * h + w - 1) div w;
                pick = (if lo = 0 \<or> adiff (w * lo) (x * h) * hi \<le> adiff (w * hi) (x * h) * lo
                        then lo else hi)
            in Inr (Some (x, max pick 1))))"

definition thumbnail :: "image \<Rightarrow> nat \<times> nat \<Rightarrow> error + image" where
  "thumbnail im box =
     (case thumbnail_size (isize im) box of
        Inl e \<Rightarrow> Inl e
      | Inr None \<Rightarrow> Inr im
      | Inr (Some fs) \<Rightarrow> (if isize im = fs then Inr im else resize im fs))"

text \<open>
  The ICO encoder writes one frame for each size of \<^verbatim>\<open>sorted(set(sizes))\<close> that is
  no larger than the image and no larger than 256: the image itself where the size is
  the image's, a thumbnail otherwise. Without \<^verbatim>\<open>sizes\<close> it uses its default list.
\<close>

definition ico_default_sizes :: "(nat \<times> nat) list" where
  "ico_default_sizes =
     [(16, 16), (24, 24), (32, 32), (48, 48), (64, 64), (128, 128), (256, 256)]"

definition tuple_le :: "nat \<times> nat \<Rightarrow> nat \<times> nat \<Rightarrow> bool" where
  "tuple_le a b = (fst a < fst b \<or> (fst a = fst b \<and> snd a \<le> snd b))"

fun insert_sorted :: "nat \<times> nat \<Rightarrow> (nat \<times> nat) list \<Rightarrow> (nat \<times> nat) list" where
  "insert_sorted a [] = [a]"
| "insert_sorted a (b # bs) = (if tuple_le a b then a # b # bs else b # insert_sorted a bs)"

definition sorted_set :: "(nat \<times> nat) list \<Rightarrow> (nat \<times> nat) list" where
  "sorted_set ss = foldr insert_sorted (remdups ss) []"

fun ico_frames :: "image \<Rightarrow> (nat \<times> nat) list \<Rightarrow> error + image list" where
  "ico_frames im [] = Inr []"
| "ico_frames im (s # ss) =
     (if fst (isize im) < fst s \<or> snd (isize im) < snd s \<or> 256 < fst s \<or> 256 < snd s
      then ico_frames im ss
      else (case (if isize im = s then Inr im else thumbnail im s) of
              Inl e \<Rightarrow> Inl e
            | Inr f \<Rightarrow> (case ico_frames im ss of Inl e \<Rightarrow> Inl e | Inr fs \<Rightarrow> Inr (f # fs))))"

definition encode :: "format \<Rightarrow> image \<Rightarrow> (nat \<times> nat) list option \<Rightarrow> error + content" where
  "encode fmt im sizes_arg =
     (case fmt of
        PNG \<Rightarrow> Inr (Png im)
      | ICO \<Rightarrow>
          (case ico_frames im
                  (sorted_set (case sizes_arg of None \<Rightarrow> ico_default_sizes | Some ss \<Rightarrow> ss)) of
             Inl e \<Rightarrow> Inl e
           | Inr fs \<Rightarrow> Inr (Ico fs)))"

text \<open>
  Without \<^verbatim>\<open>format=\<close>, \<^verbatim>\<open>save\<close> takes the format from the file name's extension.
  Of Pillow's table of extensions only the two that the script's file names use are
  modelled; any other extension is treated as unknown.
\<close>

definition format_of_extension :: "path \<Rightarrow> error + format" where
  "format_of_extension fp =
     (if extension fp = ''.png'' then Inr PNG
      else if extension fp = ''.ico'' then Inr ICO
      else Inl ValueError)"

text \<open>
  \<^verbatim>\<open>Image.save(fp, format=None, **params)\<close>: settle the format, open the path for
  writing (which truncates a file that is there), encode. When encoding fails, Pillow
  removes the file if the call created it and leaves it truncated otherwise.
\<close>

definition save :: "image \<Rightarrow> path \<Rightarrow> format option \<Rightarrow> (nat \<times> nat) list option \<Rightarrow> world \<Rightarrow> outcome" where
  "save im fp format_arg sizes_arg w =
     (case (case format_arg of Some f \<Rightarrow> Inr f | None \<Rightarrow> format_of_extension fp) of
        Inl e \<Rightarrow> Inl (e, w)
      | Inr fmt \<Rightarrow>
          if parent_dir fp \<notin> dirs w then Inl (FileNotFoundError, w)
          else if fp \<in> denied w then Inl (PermissionError, w)
          else (case encode fmt im sizes_arg of
                  Inl e \<Rightarrow>
                    Inl (e, if files w fp = None then w
                            else w\<lparr>files := (files w)(fp \<mapsto> Junk)\<rparr>)
                | Inr c \<Rightarrow> Inr (w\<lparr>files := (files w)(fp \<mapsto> c)\<rparr>)))"

definition print :: "string \<Rightarrow> world \<Rightarrow> world" where
  "print line w = w\<lparr>stdout := stdout w @ [line]\<rparr>"

section \<open>The script\<close>

text \<open>
  A \<^verbatim>\<open>for\<close> loop over the items of a dictionary. An exception raised by the body
  leaves the loop and the function: nothing in the script catches it.
\<close>

fun for_items :: "('k \<times> 'v \<Rightarrow> world \<Rightarrow> outcome) \<Rightarrow> ('k \<times> 'v) list \<Rightarrow> world \<Rightarrow> outcome" where
  "for_items body [] w = Inr w"
| "for_items body (kv # rest) w =
     (case body kv w of Inl ew \<Rightarrow> Inl ew | Inr w' \<Rightarrow> for_items body rest w')"

text \<open>
  The three tables (lines 10 to 16, 31 to 47 and 55 to 66). Every size is a positive
  literal, so the sizes are natural numbers.
\<close>

definition sizes :: "(path \<times> nat) list" where
  "sizes = dict_literal
     [(''32x32.png'', 32),
      (''64x64.png'', 64),
      (''128x128.png'', 128),
      (''128x128@2x.png'', 256),
      (''icon.ico'', 32)]"

definition ios_sizes :: "(path \<times> nat) list" where
  "ios_sizes = dict_literal
     [(''ios/AppIcon-20x20@1x.png'', 20),
      (''ios/AppIcon-20x20@2x.png'', 40),
      (''ios/AppIcon-20x20@3x.png'', 60),
      (''ios/AppIcon-29x29@1x.png'', 29),
      (''ios/AppIcon-29x29@2x.png'', 58),
      (''ios/AppIcon-29x29@3x.png'', 87),
      (''ios/AppIcon-40x40@1x.png'', 40),
      (''ios/AppIcon-40x40@2x.png'', 80),
      (''ios/AppIcon-40x40@3x.png'', 120),
      (''ios/AppIcon-60x60@2x.png'', 120),
      (''ios/AppIcon-60x60@3x.png'', 180),
      (''ios/AppIcon-76x76@1x.png'', 76),
      (''ios/AppIcon-76x76@2x.png'', 152),
      (''ios/AppIcon-83.5x83.5@2x.png'', 167),
      (''ios/AppIcon-512@2x.png'', 1024)]"

definition store_sizes :: "(path \<times> nat) list" where
  "store_sizes = dict_literal
     [(''Square30x30Logo.png'', 30),
      (''Square44x44Logo.png'', 44),
      (''Square71x71Logo.png'', 71),
      (''Square89x89Logo.png'', 89),
      (''Square107x107Logo.png'', 107),
      (''Square142x142Logo.png'', 142),
      (''Square150x150Logo.png'', 150),
      (''Square284x284Logo.png'', 284),
      (''Square310x310Logo.png'', 310),
      (''StoreLogo.png'', 50)]"

text \<open>The progress line of lines 28, 52 and 71.\<close>

definition progress_line :: "path \<times> nat \<Rightarrow> string" where
  "progress_line = (\<lambda>(filename, size).
     ''Generated '' @ filename @ '' ('' @ str_nat size @ ''x'' @ str_nat size @ '')'')"

text \<open>The body of the first loop (lines 20 to 28), with its branch on the file name.\<close>

definition desktop_body :: "image \<Rightarrow> path \<times> nat \<Rightarrow> world \<Rightarrow> outcome" where
  "desktop_body main_icon = (\<lambda>(filename, size) w.
     if endswith filename ''.ico'' then
       (case resize main_icon (size, size) of
          Inl e \<Rightarrow> Inl (e, w)
        | Inr resized \<Rightarrow>
            (case save resized filename (Some ICO) (Some [(size, size)]) w of
               Inl ew \<Rightarrow> Inl ew
             | Inr w' \<Rightarrow> Inr (print (progress_line (filename, size)) w')))
     else
       (case resize main_icon (size, size) of
          Inl e \<Rightarrow> Inl (e, w)
        | Inr resized \<Rightarrow>
            (case save resized filename None None w of
               Inl ew \<Rightarrow> Inl ew
             | Inr w' \<Rightarrow> Inr (print (progress_line (filename, size)) w'))))"

text \<open>The body of the second and of the third loop (lines 50 to 52 and 69 to 71).\<close>

definition plain_body :: "image \<Rightarrow> path \<times> nat \<Rightarrow> world \<Rightarrow> outcome" where
  "plain_body main_icon = (\<lambda>(filename, size) w.
     case resize main_icon (size, size) of
       Inl e \<Rightarrow> Inl (e, w)
     | Inr resized \<Rightarrow>
         (case save resized filename None None w of
            Inl ew \<Rightarrow> Inl ew
          | Inr w' \<Rightarrow> Inr (print (progress_line (filename, size)) w')))"

text \<open>\<^verbatim>\<open>generate_icons()\<close> (lines 5 to 71).\<close>

definition generate_icons :: "world \<Rightarrow> outcome" where
  "generate_icons w =
     (case img_open ''icon.png'' w of
        Inl e \<Rightarrow> Inl (e, w)
      | Inr main_icon \<Rightarrow>
          (case for_items (desktop_body main_icon) sizes w of
             Inl ew \<Rightarrow> Inl ew
           | Inr w1 \<Rightarrow>
               (case for_items (plain_body main_icon) ios_sizes w1 of
                  Inl ew \<Rightarrow> Inl ew
                | Inr w2 \<Rightarrow> for_items (plain_body main_icon) store_sizes w2)))"

text \<open>
  The script run as a program (lines 73 to 75): an exception that leaves
  \<^verbatim>\<open>generate_icons\<close> ends the process; otherwise the closing line is printed.
\<close>

definition main :: "world \<Rightarrow> error option \<times> world" where
  "main w =
     (case generate_icons w of
        Inl (e, w') \<Rightarrow> (Some e, w')
      | Inr w' \<Rightarrow> (None, print ''All icons generated successfully!'' w'))"

text \<open>All thirty entries, in the order the three loops visit them.\<close>

definition all_sizes :: "(path \<times> nat) list" where
  "all_sizes = sizes @ ios_sizes @ store_sizes"

text \<open>
  The script with its three tables exchanged for others: the same statements, run over
  the dictionaries \<open>t1\<close>, \<open>t2\<close> and \<open>t3\<close>. It states what a reordering of the
  entries means; \<open>generate_icons\<close> is the instance at the script's own tables.
\<close>

definition generate_icons_tables ::
  "(path \<times> nat) list \<Rightarrow> (path \<times> nat) list \<Rightarrow> (path \<times> nat) list \<Rightarrow> world \<Rightarrow> outcome" where
  "generate_icons_tables t1 t2 t3 w =
     (case img_open ''icon.png'' w of
        Inl e \<Rightarrow> Inl (e, w)
      | Inr main_icon \<Rightarrow>
          (case for_items (desktop_body main_icon) (dict_literal t1) w of
             Inl ew \<Rightarrow> Inl ew
           | Inr w1 \<Rightarrow>
               (case for_items (plain_body main_icon) (dict_literal t2) w1 of
                  Inl ew \<Rightarrow> Inl ew
                | Inr w2 \<Rightarrow> for_items (plain_body main_icon) (dict_literal t3) w2)))"

section \<open>What a run leaves behind\<close>

text \<open>
  What can be observed of a file: whether it is there (\<open>files w p\<close>), the format it is
  encoded in, and the size of the image it decodes to.
\<close>

definition content_format :: "content \<Rightarrow> format option" where
  "content_format c = (case c of Png im \<Rightarrow> Some PNG | Ico fs \<Rightarrow> Some ICO | Junk \<Rightarrow> None)"

definition content_size :: "content \<Rightarrow> (nat \<times> nat) option" where
  "content_size c = (case decode c of Inl e \<Rightarrow> None | Inr im \<Rightarrow> Some (isize im))"

definition file_format :: "world \<Rightarrow> path \<Rightarrow> format option" where
  "file_format w p = (case files w p of None \<Rightarrow> None | Some c \<Rightarrow> content_format c)"

definition decoded_size :: "world \<Rightarrow> path \<Rightarrow> (nat \<times> nat) option" where
  "decoded_size w p = (case files w p of None \<Rightarrow> None | Some c \<Rightarrow> content_size c)"

text \<open>The world an outcome ends in, whichever way the run ended.\<close>

definition final_world :: "outcome \<Rightarrow> world" where
  "final_world r = (case r of Inl (e, w) \<Rightarrow> w | Inr w \<Rightarrow> w)"

subsection \<open>Concrete worlds\<close>

text \<open>
  A 512 by 300 source image in a working directory with its \<^verbatim>\<open>ios\<close> folder; the
  same without the folder; and two directories whose \<^verbatim>\<open>icon.png\<close> is missing or
  not an image.
\<close>

definition source_512x300 :: image where
  "source_512x300 = \<lparr>isize = (512, 300), pixel_data = Original 0\<rparr>"

definition world_ready :: world where
  "world_ready =
     \<lparr>dirs = {'''', ''ios''}, denied = {},
      files = [''icon.png'' \<mapsto> Png source_512x300], stdout = []\<rparr>"

definition world_no_ios :: world where
  "world_no_ios =
     \<lparr>dirs = {''''}, denied = {},
      files = [''icon.png'' \<mapsto> Png source_512x300], stdout = []\<rparr>"

definition world_no_source :: world where
  "world_no_source =
     \<lparr>dirs = {'''', ''ios''}, denied = {}, files = Map.empty, stdout = []\<rparr>"

definition world_corrupt_source :: world where
  "world_corrupt_source =
     \<lparr>dirs = {'''', ''ios''}, denied = {}, files = [''icon.png'' \<mapsto> Junk], stdout = []\<rparr>"

subsection \<open>The loops in closed form\<close>

text \<open>
  The definitions of this subsection are not the script's: they say what its loops
  compute, and the lemmas below prove that they do. On the entries of the tables
  \<^verbatim>\<open>resize\<close> and the encoders cannot fail, so a loop body either writes its file
  and prints its line, or fails on opening the path and changes nothing.
\<close>

definition square_of :: "image \<Rightarrow> nat \<Rightarrow> image" where
  "square_of im s =
     (if isize im = (s, s) then im
      else \<lparr>isize = (s, s), pixel_data = Resampled (pixel_data im) (s, s)\<rparr>)"

definition writable :: "world \<Rightarrow> path \<Rightarrow> bool" where
  "writable w p = (parent_dir p \<in> dirs w \<and> p \<notin> denied w)"

definition write_error :: "world \<Rightarrow> path \<Rightarrow> error" where
  "write_error w p = (if parent_dir p \<notin> dirs w then FileNotFoundError else PermissionError)"

definition put_entry :: "content \<Rightarrow> path \<times> nat \<Rightarrow> world \<Rightarrow> world" where
  "put_entry c e w = print (progress_line e) (w\<lparr>files := (files w)(fst e \<mapsto> c)\<rparr>)"

definition write_entry :: "content \<Rightarrow> path \<times> nat \<Rightarrow> world \<Rightarrow> outcome" where
  "write_entry c e w =
     (if writable w (fst e) then Inr (put_entry c e w) else Inl (write_error w (fst e), w))"

text \<open>What the first loop writes for an entry, and what the other two would.\<close>

definition desktop_content :: "image \<Rightarrow> path \<times> nat \<Rightarrow> content" where
  "desktop_content im e =
     (if fst e = ''icon.ico'' then Ico [square_of im (snd e)] else Png (square_of im (snd e)))"

definition plain_content :: "image \<Rightarrow> path \<times> nat \<Rightarrow> content" where
  "plain_content im e =
     (if fst e = ''icon.ico''
      then Ico [\<lparr>isize = (16, 16), pixel_data = Resampled (pixel_data (square_of im 32)) (16, 16)\<rparr>,
                \<lparr>isize = (24, 24), pixel_data = Resampled (pixel_data (square_of im 32)) (24, 24)\<rparr>,
                square_of im 32]
      else Png (square_of im (snd e)))"

text \<open>What the proofs use of an entry of the tables.\<close>

definition regular :: "path \<times> nat \<Rightarrow> bool" where
  "regular e =
     (0 < snd e \<and>
      (e = (''icon.ico'', 32) \<or> (extension (fst e) = ''.png'' \<and> \<not> endswith (fst e) ''.ico'')))"

fun commit :: "(path \<times> nat \<Rightarrow> content) \<Rightarrow> (path \<times> nat) list \<Rightarrow> world \<Rightarrow> world" where
  "commit f [] w = w"
| "commit f (e # es) w = commit f es (put_entry (f e) e w)"

text \<open>A loop commits the entries up to the first one it cannot write.\<close>

fun run_entries :: "(path \<times> nat \<Rightarrow> content) \<Rightarrow> (path \<times> nat) list \<Rightarrow> world \<Rightarrow> outcome" where
  "run_entries f [] w = Inr w"
| "run_entries f (e # es) w =
     (if writable w (fst e) then run_entries f es (put_entry (f e) e w)
      else Inl (write_error w (fst e), w))"

section \<open>The tables and the loop bodies\<close>

lemma sizes_items:
  "sizes =
     [(''32x32.png'', 32), (''64x64.png'', 64), (''128x128.png'', 128),
      (''128x128@2x.png'', 256), (''icon.ico'', 32)]"
  by (simp add: sizes_def dict_literal_def)

lemma ios_sizes_items:
  "ios_sizes =
     [(''ios/AppIcon-20x20@1x.png'', 20),
      (''ios/AppIcon-20x20@2x.png'', 40),
      (''ios/AppIcon-20x20@3x.png'', 60),
      (''ios/AppIcon-29x29@1x.png'', 29),
      (''ios/AppIcon-29x29@2x.png'', 58),
      (''ios/AppIcon-29x29@3x.png'', 87),
      (''ios/AppIcon-40x40@1x.png'', 40),
      (''ios/AppIcon-40x40@2x.png'', 80),
      (''ios/AppIcon-40x40@3x.png'', 120),
      (''ios/AppIcon-60x60@2x.png'', 120),
      (''ios/AppIcon-60x60@3x.png'', 180),
      (''ios/AppIcon-76x76@1x.png'', 76),
      (''ios/AppIcon-76x76@2x.png'', 152),
      (''ios/AppIcon-83.5x83.5@2x.png'', 167),
      (''ios/AppIcon-512@2x.png'', 1024)]"
  by (simp add: ios_sizes_def dict_literal_def)

lemma store_sizes_items:
  "store_sizes =
     [(''Square30x30Logo.png'', 30),
      (''Square44x44Logo.png'', 44),
      (''Square71x71Logo.png'', 71),
      (''Square89x89Logo.png'', 89),
      (''Square107x107Logo.png'', 107),
      (''Square142x142Logo.png'', 142),
      (''Square150x150Logo.png'', 150),
      (''Square284x284Logo.png'', 284),
      (''Square310x310Logo.png'', 310),
      (''StoreLogo.png'', 50)]"
  by (simp add: store_sizes_def dict_literal_def)

lemma distinct_sizes: "distinct (map fst sizes)"
  by (simp add: sizes_items)

lemma distinct_ios_sizes: "distinct (map fst ios_sizes)"
  by (simp add: ios_sizes_items)

lemma distinct_store_sizes: "distinct (map fst store_sizes)"
  by (simp add: store_sizes_items)

lemma parent_dir_sizes: "\<forall>e\<in>set sizes. parent_dir (fst e) = ''''"
  by (simp add: sizes_items parent_dir_def)

lemma parent_dir_ios_sizes: "\<forall>e\<in>set ios_sizes. parent_dir (fst e) = ''ios''"
  by (simp add: ios_sizes_items parent_dir_def)

lemma parent_dir_store_sizes: "\<forall>e\<in>set store_sizes. parent_dir (fst e) = ''''"
  by (simp add: store_sizes_items parent_dir_def)

lemma sizes_not_ios: "\<forall>e\<in>set sizes. \<forall>e'\<in>set ios_sizes. fst e \<noteq> fst e'"
  using parent_dir_sizes parent_dir_ios_sizes by fastforce

lemma store_not_ios: "\<forall>e\<in>set store_sizes. \<forall>e'\<in>set ios_sizes. fst e \<noteq> fst e'"
  using parent_dir_store_sizes parent_dir_ios_sizes by fastforce

lemma sizes_not_store: "\<forall>e\<in>set sizes. fst e \<notin> fst ` set store_sizes"
  by (simp add: sizes_items store_sizes_items)

lemma distinct_all_sizes: "distinct (map fst all_sizes)"
  using distinct_sizes distinct_ios_sizes distinct_store_sizes sizes_not_ios store_not_ios
    sizes_not_store
  by (fastforce simp: all_sizes_def)

lemma source_not_output: "''icon.png'' \<notin> fst ` set all_sizes"
  by (simp add: all_sizes_def sizes_items ios_sizes_items store_sizes_items)

lemma resize_square: "0 < s \<Longrightarrow> resize im (s, s) = Inr (square_of im s)"
  by (simp add: resize_def square_of_def)

lemma isize_square_of [simp]: "isize (square_of im s) = (s, s)"
  by (simp add: square_of_def)

lemma regular_sizes: "list_all regular sizes"
  by (simp add: sizes_items regular_def extension_def basename_def endswith_def lower_char_def)

lemma regular_ios_sizes: "list_all regular ios_sizes"
  by (simp add: ios_sizes_items regular_def extension_def basename_def endswith_def lower_char_def)

lemma regular_store_sizes: "list_all regular store_sizes"
  by (simp add: store_sizes_items regular_def extension_def basename_def endswith_def lower_char_def)

lemma regular_all_sizes: "list_all regular all_sizes"
  by (simp add: all_sizes_def regular_sizes regular_ios_sizes regular_store_sizes)

lemma icon_not_ios: "(''icon.ico'', 32) \<notin> set ios_sizes"
  by (simp add: ios_sizes_items)

lemma icon_not_store: "(''icon.ico'', 32) \<notin> set store_sizes"
  by (simp add: store_sizes_items)

lemma encode_ico_one:
  "0 < s \<Longrightarrow> s \<le> 256 \<Longrightarrow> isize r = (s, s) \<Longrightarrow> encode ICO r (Some [(s, s)]) = Inr (Ico [r])"
  by (simp add: encode_def sorted_set_def)

lemma encode_ico_default_32:
  "isize r = (32, 32) \<Longrightarrow>
   encode ICO r None =
     Inr (Ico [\<lparr>isize = (16, 16), pixel_data = Resampled (pixel_data r) (16, 16)\<rparr>,
               \<lparr>isize = (24, 24), pixel_data = Resampled (pixel_data r) (24, 24)\<rparr>, r])"
  by (simp add: encode_def sorted_set_def ico_default_sizes_def tuple_le_def thumbnail_def
      thumbnail_size_def adiff_def resize_def Let_def)

lemma save_encoded:
  "(case fa of Some f \<Rightarrow> Inr f | None \<Rightarrow> format_of_extension p) = Inr fmt \<Longrightarrow>
   encode fmt r sa = Inr c \<Longrightarrow>
   save r p fa sa w =
     (if writable w p then Inr (w\<lparr>files := (files w)(p \<mapsto> c)\<rparr>)
      else Inl (write_error w p, w))"
  by (simp add: save_def writable_def write_error_def)

lemma extension_icon_ico: "extension ''icon.ico'' = ''.ico''"
  by (simp add: extension_def basename_def lower_char_def)

lemma endswith_icon_ico: "endswith ''icon.ico'' ''.ico''"
  by (simp add: endswith_def)

lemma desktop_body_ico:
  "desktop_body im (''icon.ico'', 32) w =
     write_entry (desktop_content im (''icon.ico'', 32)) (''icon.ico'', 32) w"
proof -
  have enc: "encode ICO (square_of im 32) (Some [(32, 32)]) = Inr (Ico [square_of im 32])"
    by (rule encode_ico_one) simp_all
  have sv: "save (square_of im 32) ''icon.ico'' (Some ICO) (Some [(32, 32)]) w =
      (if writable w ''icon.ico''
       then Inr (w\<lparr>files := (files w)(''icon.ico'' \<mapsto> Ico [square_of im 32])\<rparr>)
       else Inl (write_error w ''icon.ico'', w))"
    by (rule save_encoded [OF _ enc]) simp
  show ?thesis
    by (simp add: desktop_body_def endswith_icon_ico resize_square sv write_entry_def
        desktop_content_def put_entry_def)
qed

lemma plain_body_ico:
  "plain_body im (''icon.ico'', 32) w =
     write_entry (plain_content im (''icon.ico'', 32)) (''icon.ico'', 32) w"
proof -
  have enc: "encode ICO (square_of im 32) None =
      Inr (Ico [\<lparr>isize = (16, 16), pixel_data = Resampled (pixel_data (square_of im 32)) (16, 16)\<rparr>,
                \<lparr>isize = (24, 24), pixel_data = Resampled (pixel_data (square_of im 32)) (24, 24)\<rparr>,
                square_of im 32])"
    by (rule encode_ico_default_32) simp
  have sv: "save (square_of im 32) ''icon.ico'' None None w =
      (if writable w ''icon.ico''
       then Inr (w\<lparr>files := (files w)(''icon.ico'' \<mapsto>
              Ico [\<lparr>isize = (16, 16), pixel_data = Resampled (pixel_data (square_of im 32)) (16, 16)\<rparr>,
                   \<lparr>isize = (24, 24), pixel_data = Resampled (pixel_data (square_of im 32)) (24, 24)\<rparr>,
                   square_of im 32])\<rparr>)
       else Inl (write_error w ''icon.ico'', w))"
    by (rule save_encoded [OF _ enc]) (simp add: format_of_extension_def extension_icon_ico)
  show ?thesis
    by (simp add: plain_body_def resize_square sv write_entry_def plain_content_def put_entry_def)
qed

lemma save_png:
  "extension p = ''.png'' \<Longrightarrow>
   save r p None None w =
     (if writable w p then Inr (w\<lparr>files := (files w)(p \<mapsto> Png r)\<rparr>)
      else Inl (write_error w p, w))"
  by (rule save_encoded [where fmt = PNG]) (simp_all add: format_of_extension_def encode_def)

lemma png_not_icon: "extension p = ''.png'' \<Longrightarrow> p \<noteq> ''icon.ico''"
  using extension_icon_ico by auto

lemma desktop_body_png:
  "0 < s \<Longrightarrow> extension p = ''.png'' \<Longrightarrow> \<not> endswith p ''.ico'' \<Longrightarrow>
   desktop_body im (p, s) w = write_entry (desktop_content im (p, s)) (p, s) w"
  by (simp add: desktop_body_def resize_square save_png write_entry_def desktop_content_def
      put_entry_def png_not_icon)

lemma plain_body_png:
  "0 < s \<Longrightarrow> extension p = ''.png'' \<Longrightarrow>
   plain_body im (p, s) w = write_entry (plain_content im (p, s)) (p, s) w"
  by (simp add: plain_body_def resize_square save_png write_entry_def plain_content_def
      put_entry_def png_not_icon)

lemma desktop_body_regular:
  "regular e \<Longrightarrow> desktop_body im e w = write_entry (desktop_content im e) e w"
  unfolding regular_def using desktop_body_ico desktop_body_png by (cases e) auto

lemma plain_body_regular:
  "regular e \<Longrightarrow> plain_body im e w = write_entry (plain_content im e) e w"
  unfolding regular_def using plain_body_ico plain_body_png by (cases e) auto

lemma content_agree:
  "regular e \<Longrightarrow> e \<noteq> (''icon.ico'', 32) \<Longrightarrow> plain_content im e = desktop_content im e"
  by (cases e) (auto simp: regular_def plain_content_def desktop_content_def endswith_icon_ico)

section \<open>The loops\<close>

lemma dirs_put_entry [simp]: "dirs (put_entry c e w) = dirs w"
  by (simp add: put_entry_def print_def)

lemma denied_put_entry [simp]: "denied (put_entry c e w) = denied w"
  by (simp add: put_entry_def print_def)

lemma stdout_put_entry [simp]: "stdout (put_entry c e w) = stdout w @ [progress_line e]"
  by (simp add: put_entry_def print_def)

lemma files_put_entry [simp]: "files (put_entry c e w) = (files w)(fst e \<mapsto> c)"
  by (simp add: put_entry_def print_def)

lemma writable_put_entry [simp]: "writable (put_entry c e w) p = writable w p"
  by (simp add: writable_def)

lemma write_error_put_entry [simp]: "write_error (put_entry c e w) p = write_error w p"
  by (simp add: write_error_def)

lemma dirs_commit [simp]: "dirs (commit f es w) = dirs w"
  by (induction es arbitrary: w) simp_all

lemma denied_commit [simp]: "denied (commit f es w) = denied w"
  by (induction es arbitrary: w) simp_all

lemma writable_commit [simp]: "writable (commit f es w) p = writable w p"
  by (simp add: writable_def)

lemma stdout_commit: "stdout (commit f es w) = stdout w @ map progress_line es"
  by (induction es arbitrary: w) simp_all

lemma files_commit_other: "p \<notin> fst ` set es \<Longrightarrow> files (commit f es w) p = files w p"
  by (induction es arbitrary: w) auto

lemma files_commit_entry:
  "distinct (map fst es) \<Longrightarrow> e \<in> set es \<Longrightarrow> files (commit f es w) (fst e) = Some (f e)"
proof (induction es arbitrary: w)
  case Nil
  then show ?case by simp
next
  case (Cons a es)
  show ?case
  proof (cases "e = a")
    case True
    with Cons.prems have "fst a \<notin> fst ` set es" by simp
    then show ?thesis using True by (simp add: files_commit_other)
  next
    case False
    with Cons show ?thesis by simp
  qed
qed

lemma commit_append: "commit f (xs @ ys) w = commit f ys (commit f xs w)"
  by (induction xs arbitrary: w) simp_all

lemma commit_cong: "(\<And>e. e \<in> set es \<Longrightarrow> f e = g e) \<Longrightarrow> commit f es w = commit g es w"
  by (induction es arbitrary: w) simp_all

lemma for_items_cong:
  "(\<And>e w. e \<in> set es \<Longrightarrow> b e w = b' e w) \<Longrightarrow> for_items b es w = for_items b' es w"
  by (induction es arbitrary: w) (auto split: sum.splits)

lemma for_items_append:
  "for_items b (xs @ ys) w =
     (case for_items b xs w of Inl ew \<Rightarrow> Inl ew | Inr w' \<Rightarrow> for_items b ys w')"
  by (induction xs arbitrary: w) (simp_all split: sum.splits)

lemma for_items_write_entry:
  "for_items (\<lambda>e. write_entry (f e) e) es w = run_entries f es w"
proof (induction es arbitrary: w)
  case Nil
  show ?case by simp
next
  case (Cons e es)
  have "write_entry (f e) e w =
      (if writable w (fst e) then Inr (put_entry (f e) e w) else Inl (write_error w (fst e), w))"
    by (simp add: write_entry_def)
  then show ?case by (simp add: Cons.IH)
qed

lemma run_entries_ok:
  "\<forall>e\<in>set es. writable w (fst e) \<Longrightarrow> run_entries f es w = Inr (commit f es w)"
  by (induction es arbitrary: w) simp_all

lemma run_entries_stops:
  "\<forall>e\<in>set pre. writable w (fst e) \<Longrightarrow> \<not> writable w (fst x) \<Longrightarrow>
   run_entries f (pre @ x # post) w = Inl (write_error w (fst x), commit f pre w)"
  by (induction pre arbitrary: w) simp_all

lemma run_entries_Inr:
  "run_entries f es w = Inr w' \<Longrightarrow> (\<forall>e\<in>set es. writable w (fst e)) \<and> w' = commit f es w"
proof (induction es arbitrary: w)
  case Nil
  then show ?case by simp
next
  case (Cons a es)
  from Cons.prems have wa: "writable w (fst a)"
    and r: "run_entries f es (put_entry (f a) a w) = Inr w'"
    by (simp_all split: if_splits)
  from Cons.IH [OF r] wa show ?case by simp
qed

lemma run_entries_Inl:
  "run_entries f es w = Inl (err, w') \<Longrightarrow>
   \<exists>pre x post. es = pre @ x # post \<and> (\<forall>e\<in>set pre. writable w (fst e)) \<and>
     \<not> writable w (fst x) \<and> err = write_error w (fst x) \<and> w' = commit f pre w"
proof (induction es arbitrary: w)
  case Nil
  then show ?case by simp
next
  case (Cons a es)
  show ?case
  proof (cases "writable w (fst a)")
    case True
    with Cons.prems have "run_entries f es (put_entry (f a) a w) = Inl (err, w')" by simp
    from Cons.IH [OF this] obtain pre x post where
      h: "es = pre @ x # post" "\<forall>e\<in>set pre. writable w (fst e)" "\<not> writable w (fst x)"
        "err = write_error w (fst x)" "w' = commit f pre (put_entry (f a) a w)"
      by auto
    have "a # es = (a # pre) @ x # post" using h(1) by simp
    moreover have "\<forall>e\<in>set (a # pre). writable w (fst e)" using h(2) True by simp
    moreover have "w' = commit f (a # pre) w" using h(5) by simp
    ultimately show ?thesis using h(3,4) by blast
  next
    case False
    with Cons.prems have "err = write_error w (fst a)" "w' = w" by auto
    then have "a # es = [] @ a # es \<and> (\<forall>e\<in>set []. writable w (fst e)) \<and>
        \<not> writable w (fst a) \<and> err = write_error w (fst a) \<and> w' = commit f [] w"
      using False by simp
    then show ?thesis by blast
  qed
qed

lemma for_items_regular_desktop:
  assumes "list_all regular es"
  shows "for_items (desktop_body im) es w = run_entries (desktop_content im) es w"
proof -
  have "for_items (desktop_body im) es w =
      for_items (\<lambda>e. write_entry (desktop_content im e) e) es w"
    using assms by (intro for_items_cong) (simp add: list_all_iff desktop_body_regular)
  then show ?thesis by (simp add: for_items_write_entry)
qed

lemma for_items_regular_plain:
  assumes "list_all regular es"
  shows "for_items (plain_body im) es w = run_entries (plain_content im) es w"
proof -
  have "for_items (plain_body im) es w =
      for_items (\<lambda>e. write_entry (plain_content im e) e) es w"
    using assms by (intro for_items_cong) (simp add: list_all_iff plain_body_regular)
  then show ?thesis by (simp add: for_items_write_entry)
qed

lemma run_entries_append:
  "run_entries f (xs @ ys) w =
     (case run_entries f xs w of Inl ew \<Rightarrow> Inl ew | Inr w' \<Rightarrow> run_entries f ys w')"
  unfolding for_items_write_entry [symmetric] by (rule for_items_append)

lemma run_entries_cong:
  "(\<And>e. e \<in> set es \<Longrightarrow> f e = g e) \<Longrightarrow> run_entries f es w = run_entries g es w"
  unfolding for_items_write_entry [symmetric] by (rule for_items_cong) simp

text \<open>The run in closed form: one pass over the thirty entries.\<close>

lemma plain_desktop_ios:
  "run_entries (plain_content im) ios_sizes w = run_entries (desktop_content im) ios_sizes w"
  using regular_ios_sizes icon_not_ios
  by (intro run_entries_cong content_agree) (auto simp: list_all_iff)

lemma plain_desktop_store:
  "run_entries (plain_content im) store_sizes w = run_entries (desktop_content im) store_sizes w"
  using regular_store_sizes icon_not_store
  by (intro run_entries_cong content_agree) (auto simp: list_all_iff)

lemma generate_icons_closed:
  "generate_icons w =
     (case img_open ''icon.png'' w of
        Inl e \<Rightarrow> Inl (e, w)
      | Inr im \<Rightarrow> run_entries (desktop_content im) all_sizes w)"
  by (simp add: generate_icons_def all_sizes_def run_entries_append
      for_items_regular_desktop [OF regular_sizes] for_items_regular_plain [OF regular_ios_sizes]
      for_items_regular_plain [OF regular_store_sizes] plain_desktop_ios plain_desktop_store
      split: sum.splits)

section \<open>Runs\<close>

lemma content_size_desktop: "content_size (desktop_content im e) = Some (snd e, snd e)"
  by (simp add: content_size_def desktop_content_def)

lemma content_format_desktop:
  "content_format (desktop_content im e) = Some (if fst e = ''icon.ico'' then ICO else PNG)"
  by (simp add: content_format_def desktop_content_def)

lemma generate_icons_Inr:
  assumes "generate_icons w = Inr w'"
  obtains im where "img_open ''icon.png'' w = Inr im"
    and "\<forall>e\<in>set all_sizes. writable w (fst e)"
    and "w' = commit (desktop_content im) all_sizes w"
proof -
  from assms obtain im where im: "img_open ''icon.png'' w = Inr im"
    and run: "run_entries (desktop_content im) all_sizes w = Inr w'"
    by (auto simp: generate_icons_closed split: sum.splits)
  from run_entries_Inr [OF run] im that show ?thesis by blast
qed

lemma generate_icons_Inl:
  assumes "generate_icons w = Inl (err, w')" and "img_open ''icon.png'' w = Inr im"
  obtains pre x post where "all_sizes = pre @ x # post"
    and "\<forall>e\<in>set pre. writable w (fst e)" and "\<not> writable w (fst x)"
    and "err = write_error w (fst x)" and "w' = commit (desktop_content im) pre w"
proof -
  from assms have "run_entries (desktop_content im) all_sizes w = Inl (err, w')"
    by (simp add: generate_icons_closed)
  from run_entries_Inl [OF this] that show ?thesis by blast
qed

lemma generate_icons_succeeds:
  assumes "img_open ''icon.png'' w = Inr im" and "\<forall>e\<in>set all_sizes. writable w (fst e)"
  shows "generate_icons w = Inr (commit (desktop_content im) all_sizes w)"
  using assms by (simp add: generate_icons_closed run_entries_ok)

lemma committed_entry:
  assumes "distinct (map fst es)" and "(p, s) \<in> set es"
  shows "files (commit (desktop_content im) es w) p = Some (desktop_content im (p, s))"
  using files_commit_entry [OF assms, of "desktop_content im" w] by simp

lemma committed_entry_size:
  assumes "distinct (map fst es)" and "(p, s) \<in> set es"
  shows "decoded_size (commit (desktop_content im) es w) p = Some (s, s)"
  by (simp add: decoded_size_def committed_entry [OF assms] content_size_desktop)

lemma distinct_prefix:
  assumes "all_sizes = pre @ x # post"
  shows "distinct (map fst pre)"
  using distinct_all_sizes unfolding assms by simp

lemma all_writable_ready: "\<forall>e\<in>set all_sizes. writable world_ready (fst e)"
  using parent_dir_sizes parent_dir_ios_sizes parent_dir_store_sizes
  by (auto simp: all_sizes_def writable_def world_ready_def)

lemma img_open_ready: "img_open ''icon.png'' world_ready = Inr source_512x300"
  by (simp add: img_open_def world_ready_def)

lemma generate_icons_ready:
  "generate_icons world_ready = Inr (commit (desktop_content source_512x300) all_sizes world_ready)"
  using img_open_ready all_writable_ready by (rule generate_icons_succeeds)

section \<open>The claims\<close>

text \<open>
  C9. The three tables hold 5, 15 and 10 entries, 30 in all, and no two entries name the
  same output path: a run writes no path twice, and no entry's file is overwritten by
  a later entry.
\<close>

theorem tables_have_thirty_distinct_paths:
  "length sizes = 5 \<and> length ios_sizes = 15 \<and> length store_sizes = 10 \<and>
   length all_sizes = 30 \<and> distinct (map fst all_sizes)"
  using distinct_all_sizes
  by (simp add: all_sizes_def sizes_items ios_sizes_items store_sizes_items)

text \<open>
  C1. After a successful run, for every entry (path, size) of the three tables a file
  exists at the path and decodes to an image of exactly size by size pixels, whatever
  the source image was (square or not).
\<close>

theorem generated_files_have_declared_size:
  assumes "generate_icons w = Inr w'" and "(p, s) \<in> set all_sizes"
  shows "files w' p \<noteq> None \<and> decoded_size w' p = Some (s, s)"
proof -
  from assms(1) obtain im where w': "w' = commit (desktop_content im) all_sizes w"
    by (rule generate_icons_Inr)
  show ?thesis
    unfolding w'
    using committed_entry [OF distinct_all_sizes assms(2)]
      committed_entry_size [OF distinct_all_sizes assms(2)]
    by simp
qed

theorem generated_files_have_declared_size_witness:
  "isize source_512x300 = (512, 300) \<and>
   (\<exists>w'. generate_icons world_ready = Inr w' \<and>
      (''128x128@2x.png'', 256) \<in> set all_sizes \<and>
      files w' ''128x128@2x.png'' \<noteq> None \<and>
      decoded_size w' ''128x128@2x.png'' = Some (256, 256))"
proof -
  have m: "(''128x128@2x.png'', 256) \<in> set all_sizes"
    by (simp add: all_sizes_def sizes_items)
  from generated_files_have_declared_size [OF generate_icons_ready m] m generate_icons_ready
  show ?thesis by (simp add: source_512x300_def)
qed

text \<open>
  C2. When \<^verbatim>\<open>icon.png\<close> is missing, or is not a raster a decoder accepts, the run
  fails before anything is written: the world is as it was (no file created, nothing
  printed), and the error ends the process.
\<close>

theorem unreadable_source_writes_nothing:
  assumes "files w ''icon.png'' = None \<or> (\<exists>c. files w ''icon.png'' = Some c \<and> isl (decode c))"
  shows "\<exists>e. generate_icons w = Inl (e, w) \<and> main w = (Some e, w)"
proof -
  from assms have "isl (img_open ''icon.png'' w)"
    by (auto simp: img_open_def)
  then obtain e where "img_open ''icon.png'' w = Inl e"
    by (cases "img_open ''icon.png'' w") simp_all
  then have "generate_icons w = Inl (e, w)"
    by (simp add: generate_icons_def)
  then show ?thesis by (simp add: main_def)
qed

theorem unreadable_source_writes_nothing_witness:
  "files world_no_source ''icon.png'' = None \<and>
   generate_icons world_no_source = Inl (FileNotFoundError, world_no_source) \<and>
   main world_no_source = (Some FileNotFoundError, world_no_source) \<and>
   files world_corrupt_source ''icon.png'' = Some Junk \<and> isl (decode Junk) \<and>
   generate_icons world_corrupt_source = Inl (UnidentifiedImageError, world_corrupt_source) \<and>
   main world_corrupt_source = (Some UnidentifiedImageError, world_corrupt_source)"
proof -
  have a: "files world_no_source ''icon.png'' = None"
    by (simp add: world_no_source_def)
  have b: "files world_corrupt_source ''icon.png'' = Some Junk"
    by (simp add: world_corrupt_source_def)
  have "img_open ''icon.png'' world_no_source = Inl FileNotFoundError"
    by (simp add: img_open_def a)
  then have ga: "generate_icons world_no_source = Inl (FileNotFoundError, world_no_source)"
    by (simp add: generate_icons_def)
  have "img_open ''icon.png'' world_corrupt_source = Inl UnidentifiedImageError"
    by (simp add: img_open_def b)
  then have gb: "generate_icons world_corrupt_source = Inl (UnidentifiedImageError, world_corrupt_source)"
    by (simp add: generate_icons_def)
  from unreadable_source_writes_nothing [of world_no_source]
    unreadable_source_writes_nothing [of world_corrupt_source] a b ga gb
  show ?thesis by simp
qed

lemma regular_entry: "e \<in> set all_sizes \<Longrightarrow> regular e"
  using regular_all_sizes by (simp add: list_all_iff)

lemma entry_resize:
  "(p, s) \<in> set all_sizes \<Longrightarrow> resize im (s, s) = Inr (square_of im s)"
  using regular_entry [of "(p, s)"] by (simp add: regular_def resize_square)

lemma entry_ico_iff:
  assumes "(p, s) \<in> set all_sizes"
  shows "endswith p ''.ico'' \<longleftrightarrow> p = ''icon.ico''" and "p = ''icon.ico'' \<Longrightarrow> s = 32"
  using regular_entry [OF assms] endswith_icon_ico extension_icon_ico
  by (auto simp: regular_def)

lemma ico_entries: "filter (\<lambda>e. endswith (fst e) ''.ico'') all_sizes = [(''icon.ico'', 32)]"
  by (simp add: all_sizes_def sizes_items ios_sizes_items store_sizes_items endswith_def)

lemma source_kept: "files (commit f es w) ''icon.png'' = files w ''icon.png''"
  if "set es \<subseteq> set all_sizes"
  using that source_not_output by (intro files_commit_other) auto

lemma all_sizes_split_at_ios:
  "all_sizes = sizes @ (''ios/AppIcon-20x20@1x.png'', 20) # (tl ios_sizes @ store_sizes)"
  by (simp add: all_sizes_def ios_sizes_items)

lemma fst_disjoint_append:
  assumes "distinct (map fst (xs @ ys))" and "e \<in> set ys"
  shows "fst e \<notin> fst ` set xs"
proof
  assume "fst e \<in> fst ` set xs"
  moreover have "fst e \<in> fst ` set ys" using assms(2) by (rule imageI)
  moreover have "fst ` set xs \<inter> fst ` set ys = {}" using assms(1) by simp
  ultimately show False by blast
qed

lemma later_not_earlier:
  assumes "all_sizes = pre @ x # post" and "e \<in> set (x # post)"
  shows "fst e \<notin> fst ` set pre"
  using distinct_all_sizes assms(2) unfolding assms(1) by (rule fst_disjoint_append)

lemma sizes_not_later:
  assumes "e \<in> set (ios_sizes @ store_sizes)"
  shows "fst e \<notin> fst ` set sizes"
  using distinct_all_sizes assms unfolding all_sizes_def by (rule fst_disjoint_append)

lemma img_open_no_ios: "img_open ''icon.png'' world_no_ios = Inr source_512x300"
  by (simp add: img_open_def world_no_ios_def)

text \<open>
  C3. When the write of some entry fails (its directory is missing, or the path is
  refused), the run ends there with that error, uncaught and not retried: every entry
  before it has its file written and its line printed, and no later entry is touched.
\<close>

theorem write_failure_aborts_at_entry:
  assumes "img_open ''icon.png'' w = Inr im"
    and "all_sizes = pre @ x # post"
    and "\<forall>e\<in>set pre. parent_dir (fst e) \<in> dirs w \<and> fst e \<notin> denied w"
    and "parent_dir (fst x) \<notin> dirs w \<or> fst x \<in> denied w"
  shows "\<exists>err w'. generate_icons w = Inl (err, w') \<and> main w = (Some err, w') \<and>
    (\<forall>(p, s)\<in>set pre. files w' p \<noteq> None \<and> decoded_size w' p = Some (s, s)) \<and>
    (\<forall>(p, s)\<in>set (x # post). files w' p = files w p) \<and>
    stdout w' = stdout w @ map progress_line pre"
proof -
  let ?w' = "commit (desktop_content im) pre w"
  have pre: "\<forall>e\<in>set pre. writable w (fst e)" and x: "\<not> writable w (fst x)"
    using assms(3,4) by (auto simp: writable_def)
  have run: "generate_icons w = Inl (write_error w (fst x), ?w')"
    using assms(1) run_entries_stops [OF pre x]
    by (simp add: generate_icons_closed assms(2))
  have "main w = (Some (write_error w (fst x)), ?w')"
    by (simp add: main_def run)
  moreover have "\<forall>(p, s)\<in>set pre. files ?w' p \<noteq> None \<and> decoded_size ?w' p = Some (s, s)"
    using committed_entry [OF distinct_prefix [OF assms(2)]]
      committed_entry_size [OF distinct_prefix [OF assms(2)]]
    by auto
  moreover have "\<forall>(p, s)\<in>set (x # post). files ?w' p = files w p"
  proof (clarify)
    fix p s
    assume "(p, s) \<in> set (x # post)"
    from later_not_earlier [OF assms(2) this] have "p \<notin> fst ` set pre" by simp
    then show "files ?w' p = files w p" by (rule files_commit_other)
  qed
  moreover have "stdout ?w' = stdout w @ map progress_line pre"
    by (rule stdout_commit)
  ultimately show ?thesis using run by blast
qed

theorem write_failure_aborts_at_entry_witness:
  "img_open ''icon.png'' world_no_ios = Inr source_512x300 \<and>
   all_sizes = sizes @ (''ios/AppIcon-20x20@1x.png'', 20) # (tl ios_sizes @ store_sizes) \<and>
   parent_dir ''ios/AppIcon-20x20@1x.png'' \<notin> dirs world_no_ios \<and>
   (\<exists>err w'. generate_icons world_no_ios = Inl (err, w') \<and>
      main world_no_ios = (Some err, w') \<and>
      files w' ''icon.ico'' \<noteq> None \<and>
      files w' ''StoreLogo.png'' = None \<and>
      length (stdout w') = 5)"
proof -
  have pre: "\<forall>e\<in>set sizes. parent_dir (fst e) \<in> dirs world_no_ios \<and> fst e \<notin> denied world_no_ios"
    using parent_dir_sizes by (simp add: world_no_ios_def)
  have x: "parent_dir ''ios/AppIcon-20x20@1x.png'' \<notin> dirs world_no_ios"
    by (simp add: parent_dir_def world_no_ios_def)
  then have x': "parent_dir (fst (''ios/AppIcon-20x20@1x.png'', 20::nat)) \<notin> dirs world_no_ios \<or>
      fst (''ios/AppIcon-20x20@1x.png'', 20::nat) \<in> denied world_no_ios"
    by simp
  from write_failure_aborts_at_entry [OF img_open_no_ios all_sizes_split_at_ios pre x']
  obtain err w' where run: "generate_icons world_no_ios = Inl (err, w')"
    and m: "main world_no_ios = (Some err, w')"
    and before: "\<forall>(p, s)\<in>set sizes. files w' p \<noteq> None \<and> decoded_size w' p = Some (s, s)"
    and after: "\<forall>(p, s)\<in>set ((''ios/AppIcon-20x20@1x.png'', 20) # (tl ios_sizes @ store_sizes)).
        files w' p = files world_no_ios p"
    and out: "stdout w' = stdout world_no_ios @ map progress_line sizes"
    by blast
  have "(''icon.ico'', 32) \<in> set sizes"
    by (simp add: sizes_items)
  with before have a: "files w' ''icon.ico'' \<noteq> None" by fastforce
  have "(''StoreLogo.png'', 50) \<in> set ((''ios/AppIcon-20x20@1x.png'', 20) # (tl ios_sizes @ store_sizes))"
    by (simp add: store_sizes_items)
  with after have "files w' ''StoreLogo.png'' = files world_no_ios ''StoreLogo.png''" by fastforce
  then have b: "files w' ''StoreLogo.png'' = None"
    by (simp add: world_no_ios_def)
  have c: "length (stdout w') = 5"
    by (simp add: out world_no_ios_def sizes_items)
  from run m a b c img_open_no_ios all_sizes_split_at_ios x show ?thesis by blast
qed

text \<open>
  C4. After a successful run the one entry whose file name ends in \<^verbatim>\<open>.ico\<close>,
  \<^verbatim>\<open>icon.ico\<close>, is an ICO file with a single frame of 32 by 32; every other entry
  is a PNG file. The test on the file name is the only branch on the format: for a
  name that does not end in \<^verbatim>\<open>.ico\<close> the body of the first loop is the body of the
  other two, which has no branch.
\<close>

theorem only_icon_ico_is_ico:
  assumes "generate_icons w = Inr w'" and "(p, s) \<in> set all_sizes"
  shows "(if endswith p ''.ico''
          then p = ''icon.ico'' \<and> (\<exists>f. files w' p = Some (Ico [f]) \<and> isize f = (32, 32))
          else (\<exists>r. files w' p = Some (Png r))) \<and>
    filter (\<lambda>e. endswith (fst e) ''.ico'') all_sizes = [(''icon.ico'', 32)] \<and>
    (\<forall>q n v. \<not> endswith q ''.ico'' \<longrightarrow> desktop_body im (q, n) v = plain_body im (q, n) v)"
proof -
  from assms(1) obtain src where w': "w' = commit (desktop_content src) all_sizes w"
    by (rule generate_icons_Inr)
  have f: "files w' p = Some (desktop_content src (p, s))"
    unfolding w' by (rule committed_entry [OF distinct_all_sizes assms(2)])
  have "if endswith p ''.ico''
        then p = ''icon.ico'' \<and> (\<exists>f. files w' p = Some (Ico [f]) \<and> isize f = (32, 32))
        else (\<exists>r. files w' p = Some (Png r))"
    using entry_ico_iff [OF assms(2)] f by (auto simp: desktop_content_def)
  moreover have "\<forall>q n v. \<not> endswith q ''.ico'' \<longrightarrow> desktop_body im (q, n) v = plain_body im (q, n) v"
    by (simp add: desktop_body_def plain_body_def)
  ultimately show ?thesis using ico_entries by simp
qed

theorem only_icon_ico_is_ico_witness:
  "\<exists>w'. generate_icons world_ready = Inr w' \<and>
     (''icon.ico'', 32) \<in> set all_sizes \<and> (''StoreLogo.png'', 50) \<in> set all_sizes \<and>
     (\<exists>f. files w' ''icon.ico'' = Some (Ico [f]) \<and> isize f = (32, 32)) \<and>
     (\<exists>r. files w' ''StoreLogo.png'' = Some (Png r))"
proof -
  have a: "(''icon.ico'', 32) \<in> set all_sizes" and b: "(''StoreLogo.png'', 50) \<in> set all_sizes"
    by (simp_all add: all_sizes_def sizes_items store_sizes_items)
  have ea: "endswith ''icon.ico'' ''.ico''" and eb: "\<not> endswith ''StoreLogo.png'' ''.ico''"
    by (simp_all add: endswith_def)
  from only_icon_ico_is_ico [OF generate_icons_ready a, of source_512x300]
    only_icon_ico_is_ico [OF generate_icons_ready b, of source_512x300] ea eb a b generate_icons_ready
  show ?thesis by simp
qed

text \<open>
  C7. The loaded image is the same value in every iteration: whichever way the run
  ends, the file at an entry's path is either the encoding of \<^verbatim>\<open>resize\<close> applied to
  the image decoded from \<^verbatim>\<open>icon.png\<close> at the start, never of an image resized
  before, or (in a run that failed) untouched.
\<close>

theorem outputs_come_from_loaded_source:
  assumes "img_open ''icon.png'' w = Inr im" and "(p, s) \<in> set all_sizes"
  shows "(\<exists>r. resize im (s, s) = Inr r \<and>
            (files (final_world (generate_icons w)) p = Some (Png r) \<or>
             files (final_world (generate_icons w)) p = Some (Ico [r]))) \<or>
         (isl (generate_icons w) \<and> files (final_world (generate_icons w)) p = files w p)"
proof -
  have r: "resize im (s, s) = Inr (square_of im s)"
    by (rule entry_resize [OF assms(2)])
  have written: "files w' p = Some (Png (square_of im s)) \<or> files w' p = Some (Ico [square_of im s])"
    if "w' = commit (desktop_content im) es w" "distinct (map fst es)" "(p, s) \<in> set es" for w' es
    using committed_entry [OF that(2,3), of im w] that(1) by (simp add: desktop_content_def)
  show ?thesis
  proof (cases "generate_icons w")
    case (Inr w')
    then obtain src where "img_open ''icon.png'' w = Inr src"
      and "w' = commit (desktop_content src) all_sizes w"
      by (rule generate_icons_Inr)
    with assms(1) have "w' = commit (desktop_content im) all_sizes w" by simp
    from written [OF this distinct_all_sizes assms(2)] r Inr show ?thesis
      by (simp add: final_world_def)
  next
    case (Inl ew)
    obtain err w' where ew: "ew = (err, w')" by (cases ew)
    from Inl ew assms(1) obtain pre x post where split: "all_sizes = pre @ x # post"
      and w': "w' = commit (desktop_content im) pre w"
      by (auto elim: generate_icons_Inl)
    show ?thesis
    proof (cases "(p, s) \<in> set pre")
      case True
      from written [OF w' distinct_prefix [OF split] True] r Inl ew show ?thesis
        by (simp add: final_world_def)
    next
      case False
      with assms(2) [unfolded split] have "(p, s) \<in> set (x # post)" by auto
      from later_not_earlier [OF split this] have "p \<notin> fst ` set pre" by simp
      then have "files w' p = files w p"
        unfolding w' by (rule files_commit_other)
      with Inl ew show ?thesis by (simp add: final_world_def)
    qed
  qed
qed

theorem outputs_come_from_loaded_source_witness:
  "img_open ''icon.png'' world_ready = Inr source_512x300 \<and>
   (''64x64.png'', 64) \<in> set all_sizes \<and>
   \<not> isl (generate_icons world_ready) \<and>
   files (final_world (generate_icons world_ready)) ''64x64.png'' =
     Some (Png \<lparr>isize = (64, 64), pixel_data = Resampled (Original 0) (64, 64)\<rparr>)"
proof -
  have m: "(''64x64.png'', 64) \<in> set all_sizes"
    by (simp add: all_sizes_def sizes_items)
  have r: "resize source_512x300 (64, 64) =
      Inr \<lparr>isize = (64, 64), pixel_data = Resampled (Original 0) (64, 64)\<rparr>"
    by (simp add: resize_def source_512x300_def)
  have ok: "\<not> isl (generate_icons world_ready)"
    by (simp add: generate_icons_ready)
  have "files (final_world (generate_icons world_ready)) ''64x64.png'' =
      Some (desktop_content source_512x300 (''64x64.png'', 64))"
    by (simp add: generate_icons_ready final_world_def committed_entry [OF distinct_all_sizes m])
  then have png: "files (final_world (generate_icons world_ready)) ''64x64.png'' \<noteq>
      Some (Ico [r])" for r
    by (simp add: desktop_content_def)
  from outputs_come_from_loaded_source [OF img_open_ready m] r ok png img_open_ready m
  show ?thesis by auto
qed

lemma run_entries_same_world:
  assumes "dirs v = dirs w" and "denied v = denied w"
  shows "isl (run_entries f es v) = isl (run_entries f es w)"
    and "drop (length (stdout v)) (stdout (final_world (run_entries f es v))) =
         drop (length (stdout w)) (stdout (final_world (run_entries f es w)))"
proof -
  have wr: "writable v p = writable w p" for p
    using assms by (simp add: writable_def)
  have "isl (run_entries f es v) = isl (run_entries f es w) \<and>
      drop (length (stdout v)) (stdout (final_world (run_entries f es v))) =
      drop (length (stdout w)) (stdout (final_world (run_entries f es w)))"
  proof (cases "\<forall>e\<in>set es. writable w (fst e)")
    case True
    then have "\<forall>e\<in>set es. writable v (fst e)" by (simp add: wr)
    with True show ?thesis
      by (simp add: run_entries_ok final_world_def stdout_commit)
  next
    case False
    then obtain err w' where "run_entries f es w = Inl (err, w')"
      using run_entries_Inr [of f es w] by (cases "run_entries f es w") auto
    from run_entries_Inl [OF this] obtain pre x post where
      h: "es = pre @ x # post" "\<forall>e\<in>set pre. writable w (fst e)" "\<not> writable w (fst x)"
      by blast
    then have hv: "\<forall>e\<in>set pre. writable v (fst e)" "\<not> writable v (fst x)"
      by (simp_all add: wr)
    show ?thesis
      unfolding h(1) run_entries_stops [OF h(2,3)] run_entries_stops [OF hv]
      by (simp add: final_world_def stdout_commit)
  qed
  then show "isl (run_entries f es v) = isl (run_entries f es w)"
    and "drop (length (stdout v)) (stdout (final_world (run_entries f es v))) =
         drop (length (stdout w)) (stdout (final_world (run_entries f es w)))"
    by simp_all
qed

text \<open>
  Of the world, a run reads the file \<^verbatim>\<open>icon.png\<close> and nothing else: whether it
  succeeds and what it prints are settled by that file and by which paths can be
  written.
\<close>

lemma generate_icons_reads_only_source:
  assumes "files v ''icon.png'' = files w ''icon.png''"
    and "dirs v = dirs w" and "denied v = denied w"
  shows "isl (generate_icons v) = isl (generate_icons w)"
    and "drop (length (stdout v)) (stdout (final_world (generate_icons v))) =
         drop (length (stdout w)) (stdout (final_world (generate_icons w)))"
proof -
  have o: "img_open ''icon.png'' v = img_open ''icon.png'' w"
    using assms(1) by (simp add: img_open_def)
  show "isl (generate_icons v) = isl (generate_icons w)"
    using run_entries_same_world(1) [OF assms(2,3)]
    by (cases "img_open ''icon.png'' w") (simp_all add: generate_icons_closed o)
  show "drop (length (stdout v)) (stdout (final_world (generate_icons v))) =
        drop (length (stdout w)) (stdout (final_world (generate_icons w)))"
    using run_entries_same_world(2) [OF assms(2,3)]
    by (cases "img_open ''icon.png'' w") (simp_all add: generate_icons_closed o final_world_def)
qed

text \<open>
  C8. \<^verbatim>\<open>generate_icons\<close> depends on nothing but the world it runs in, and it reads
  its source from the fixed path \<^verbatim>\<open>icon.png\<close>. It prints one progress line for each
  file it has generated, in the order of the tables, and none for an entry it did not
  write: a successful run prints thirty lines, one for each entry.
\<close>

theorem one_progress_line_per_generated_file:
  "\<exists>pre post. all_sizes = pre @ post \<and>
     stdout (final_world (generate_icons w)) = stdout w @ map progress_line pre \<and>
     (\<forall>e\<in>set pre. files (final_world (generate_icons w)) (fst e) \<noteq> None) \<and>
     (\<forall>e\<in>set post. files (final_world (generate_icons w)) (fst e) = files w (fst e)) \<and>
     (\<forall>w'. generate_icons w = Inr w' \<longrightarrow>
        post = [] \<and> length (stdout w') = length (stdout w) + 30)"
proof (cases "generate_icons w")
  case (Inr w')
  then obtain im where w': "w' = commit (desktop_content im) all_sizes w"
    by (rule generate_icons_Inr)
  have "\<forall>e\<in>set all_sizes. files w' (fst e) \<noteq> None"
    using files_commit_entry [OF distinct_all_sizes, of _ "desktop_content im" w]
    by (simp add: w')
  moreover have "stdout w' = stdout w @ map progress_line all_sizes"
    by (simp add: w' stdout_commit)
  moreover have "length all_sizes = 30"
    by (simp add: all_sizes_def sizes_items ios_sizes_items store_sizes_items)
  ultimately have "all_sizes = all_sizes @ [] \<and>
     stdout (final_world (generate_icons w)) = stdout w @ map progress_line all_sizes \<and>
     (\<forall>e\<in>set all_sizes. files (final_world (generate_icons w)) (fst e) \<noteq> None) \<and>
     (\<forall>e\<in>set []. files (final_world (generate_icons w)) (fst e) = files w (fst e)) \<and>
     (\<forall>w'. generate_icons w = Inr w' \<longrightarrow>
        [] = ([] :: (path \<times> nat) list) \<and> length (stdout w') = length (stdout w) + 30)"
    using Inr by (simp add: final_world_def)
  then show ?thesis by blast
next
  case (Inl ew)
  obtain err w' where ew: "ew = (err, w')" by (cases ew)
  show ?thesis
  proof (cases "img_open ''icon.png'' w")
    case (Inl e)
    then have "generate_icons w = Inl (e, w)"
      by (simp add: generate_icons_def)
    then have "all_sizes = [] @ all_sizes \<and>
       stdout (final_world (generate_icons w)) = stdout w @ map progress_line [] \<and>
       (\<forall>e\<in>set []. files (final_world (generate_icons w)) (fst e) \<noteq> None) \<and>
       (\<forall>e\<in>set all_sizes. files (final_world (generate_icons w)) (fst e) = files w (fst e)) \<and>
       (\<forall>w'. generate_icons w = Inr w' \<longrightarrow>
          all_sizes = [] \<and> length (stdout w') = length (stdout w) + 30)"
      by (simp add: final_world_def)
    then show ?thesis by blast
  next
    case (Inr im)
    from \<open>generate_icons w = Inl ew\<close> ew Inr obtain pre x post
      where split: "all_sizes = pre @ x # post"
        and w': "w' = commit (desktop_content im) pre w"
      by (auto elim: generate_icons_Inl)
    have fw: "final_world (generate_icons w) = w'"
      by (simp add: final_world_def \<open>generate_icons w = Inl ew\<close> ew)
    have "\<forall>e\<in>set pre. files w' (fst e) \<noteq> None"
      using files_commit_entry [OF distinct_prefix [OF split], of _ "desktop_content im" w]
      by (simp add: w')
    moreover have "\<forall>e\<in>set (x # post). files w' (fst e) = files w (fst e)"
    proof
      fix e assume "e \<in> set (x # post)"
      from later_not_earlier [OF split this] show "files w' (fst e) = files w (fst e)"
        unfolding w' by (rule files_commit_other)
    qed
    moreover have "stdout w' = stdout w @ map progress_line pre"
      by (simp add: w' stdout_commit)
    ultimately have "all_sizes = pre @ (x # post) \<and>
       stdout (final_world (generate_icons w)) = stdout w @ map progress_line pre \<and>
       (\<forall>e\<in>set pre. files (final_world (generate_icons w)) (fst e) \<noteq> None) \<and>
       (\<forall>e\<in>set (x # post). files (final_world (generate_icons w)) (fst e) = files w (fst e)) \<and>
       (\<forall>w'. generate_icons w = Inr w' \<longrightarrow>
          x # post = [] \<and> length (stdout w') = length (stdout w) + 30)"
      using split fw \<open>generate_icons w = Inl ew\<close> by simp
    then show ?thesis by blast
  qed
qed

theorem one_progress_line_per_generated_file_witness:
  "\<exists>w'. generate_icons world_ready = Inr w' \<and>
     length (stdout w') = 30 \<and>
     stdout w' = map progress_line all_sizes \<and>
     progress_line (''128x128@2x.png'', 256) = ''Generated 128x128@2x.png (256x256)''"
proof -
  let ?w' = "commit (desktop_content source_512x300) all_sizes world_ready"
  from one_progress_line_per_generated_file [of world_ready]
  obtain pre post where split: "all_sizes = pre @ post"
    and out: "stdout (final_world (generate_icons world_ready)) =
        stdout world_ready @ map progress_line pre"
    and full: "\<forall>w'. generate_icons world_ready = Inr w' \<longrightarrow>
        post = [] \<and> length (stdout w') = length (stdout world_ready) + 30"
    by blast
  from full generate_icons_ready have post: "post = []"
    and len: "length (stdout ?w') = length (stdout world_ready) + 30"
    by blast+
  have e: "stdout world_ready = []"
    by (simp add: world_ready_def)
  have "stdout ?w' = map progress_line all_sizes"
    using out split post by (simp add: generate_icons_ready final_world_def e)
  moreover have "length (stdout ?w') = 30"
    using len by (simp add: e)
  moreover have "progress_line (''128x128@2x.png'', 256) = ''Generated 128x128@2x.png (256x256)''"
    by (simp add: progress_line_def str_nat.simps digit_char_def)
  ultimately show ?thesis using generate_icons_ready by blast
qed

text \<open>
  C10. The tables are run in the order desktop, iOS, Windows Store, each in the order
  it is written. So when the source loads and the working directory takes the five
  desktop files, but there is no \<^verbatim>\<open>ios\<close> directory, the run fails with
  \<^verbatim>\<open>FileNotFoundError\<close> at the first iOS entry: the five desktop files are written
  and their lines printed, and no iOS or Windows Store file is touched.
\<close>

theorem missing_ios_directory_fails_after_desktop_table:
  assumes "img_open ''icon.png'' w = Inr im"
    and "'''' \<in> dirs w" and "\<forall>e\<in>set sizes. fst e \<notin> denied w"
    and "''ios'' \<notin> dirs w"
  shows "\<exists>w'. generate_icons w = Inl (FileNotFoundError, w') \<and>
    (\<forall>(p, s)\<in>set sizes. files w' p \<noteq> None \<and> decoded_size w' p = Some (s, s)) \<and>
    (\<forall>(p, s)\<in>set (ios_sizes @ store_sizes). files w' p = files w p) \<and>
    stdout w' = stdout w @ map progress_line sizes"
proof -
  let ?x = "(''ios/AppIcon-20x20@1x.png'', 20::nat)"
  let ?w' = "commit (desktop_content im) sizes w"
  have pre: "\<forall>e\<in>set sizes. writable w (fst e)"
    using parent_dir_sizes assms(2,3) by (simp add: writable_def)
  have dir: "parent_dir (fst ?x) = ''ios''"
    by (simp add: parent_dir_def)
  then have x: "\<not> writable w (fst ?x)" and err: "write_error w (fst ?x) = FileNotFoundError"
    using assms(4) by (simp_all only: writable_def write_error_def simp_thms if_True)
  have run: "generate_icons w = Inl (FileNotFoundError, ?w')"
    using assms(1) run_entries_stops [OF pre x, of "desktop_content im" "tl ios_sizes @ store_sizes"]
    by (simp only: generate_icons_closed all_sizes_split_at_ios err sum.case)
  moreover have "\<forall>(p, s)\<in>set sizes. files ?w' p \<noteq> None \<and> decoded_size ?w' p = Some (s, s)"
    using committed_entry [OF distinct_sizes] committed_entry_size [OF distinct_sizes]
    by auto
  moreover have "\<forall>(p, s)\<in>set (ios_sizes @ store_sizes). files ?w' p = files w p"
  proof (clarify)
    fix p s
    assume "(p, s) \<in> set (ios_sizes @ store_sizes)"
    from sizes_not_later [OF this] have "p \<notin> fst ` set sizes" by simp
    then show "files ?w' p = files w p" by (rule files_commit_other)
  qed
  moreover have "stdout ?w' = stdout w @ map progress_line sizes"
    by (rule stdout_commit)
  ultimately show ?thesis by blast
qed

theorem missing_ios_directory_fails_after_desktop_table_witness:
  "img_open ''icon.png'' world_no_ios = Inr source_512x300 \<and>
   '''' \<in> dirs world_no_ios \<and> ''ios'' \<notin> dirs world_no_ios \<and> denied world_no_ios = {} \<and>
   (\<exists>w'. generate_icons world_no_ios = Inl (FileNotFoundError, w') \<and>
      decoded_size w' ''icon.ico'' = Some (32, 32) \<and>
      files w' ''ios/AppIcon-20x20@1x.png'' = None \<and>
      files w' ''Square30x30Logo.png'' = None \<and>
      stdout w' = map progress_line sizes)"
proof -
  have d: "'''' \<in> dirs world_no_ios" "''ios'' \<notin> dirs world_no_ios" "denied world_no_ios = {}"
    by (simp_all add: world_no_ios_def)
  then have den: "\<forall>e\<in>set sizes. fst e \<notin> denied world_no_ios" by simp
  from missing_ios_directory_fails_after_desktop_table [OF img_open_no_ios d(1) den d(2)]
  obtain w' where run: "generate_icons world_no_ios = Inl (FileNotFoundError, w')"
    and before: "\<forall>(p, s)\<in>set sizes. files w' p \<noteq> None \<and> decoded_size w' p = Some (s, s)"
    and after: "\<forall>(p, s)\<in>set (ios_sizes @ store_sizes). files w' p = files world_no_ios p"
    and out: "stdout w' = stdout world_no_ios @ map progress_line sizes"
    by blast
  have "(''icon.ico'', 32) \<in> set sizes"
    by (simp add: sizes_items)
  with before have a: "decoded_size w' ''icon.ico'' = Some (32, 32)" by fastforce
  have "(''ios/AppIcon-20x20@1x.png'', 20) \<in> set (ios_sizes @ store_sizes)"
    by (simp add: ios_sizes_items)
  with after have "files w' ''ios/AppIcon-20x20@1x.png'' = files world_no_ios ''ios/AppIcon-20x20@1x.png''"
    by fastforce
  then have b: "files w' ''ios/AppIcon-20x20@1x.png'' = None"
    by (simp add: world_no_ios_def)
  have "(''Square30x30Logo.png'', 30) \<in> set (ios_sizes @ store_sizes)"
    by (simp add: store_sizes_items)
  with after have "files w' ''Square30x30Logo.png'' = files world_no_ios ''Square30x30Logo.png''"
    by fastforce
  then have c: "files w' ''Square30x30Logo.png'' = None"
    by (simp add: world_no_ios_def)
  have o: "stdout w' = map progress_line sizes"
    by (simp add: out world_no_ios_def)
  from run a b c o d img_open_no_ios show ?thesis by blast
qed

text \<open>
  C5. A second run, started in the world the first successful run left, succeeds as
  well, and it leaves at every entry's path a file of the same pixel dimensions as the
  first run did.
\<close>

theorem second_run_same_dimensions:
  assumes "generate_icons w = Inr w1"
  shows "\<exists>w2. generate_icons w1 = Inr w2 \<and>
    (\<forall>(p, s)\<in>set all_sizes. files w2 p \<noteq> None \<and> decoded_size w2 p = decoded_size w1 p)"
proof -
  from assms obtain im where im: "img_open ''icon.png'' w = Inr im"
    and wr: "\<forall>e\<in>set all_sizes. writable w (fst e)"
    and w1: "w1 = commit (desktop_content im) all_sizes w"
    by (rule generate_icons_Inr)
  let ?w2 = "commit (desktop_content im) all_sizes w1"
  have "files w1 ''icon.png'' = files w ''icon.png''"
    unfolding w1 by (rule source_kept) simp
  then have im1: "img_open ''icon.png'' w1 = Inr im"
    using im by (simp add: img_open_def)
  have wr1: "\<forall>e\<in>set all_sizes. writable w1 (fst e)"
    using wr by (simp add: w1)
  have run: "generate_icons w1 = Inr ?w2"
    using im1 wr1 by (rule generate_icons_succeeds)
  moreover have "\<forall>(p, s)\<in>set all_sizes. files ?w2 p \<noteq> None \<and> decoded_size ?w2 p = decoded_size w1 p"
  proof (clarify)
    fix p s
    assume m: "(p, s) \<in> set all_sizes"
    have "decoded_size w1 p = Some (s, s)"
      unfolding w1 by (rule committed_entry_size [OF distinct_all_sizes m])
    moreover have "decoded_size ?w2 p = Some (s, s)"
      by (rule committed_entry_size [OF distinct_all_sizes m])
    moreover have "files ?w2 p \<noteq> None"
      by (simp add: committed_entry [OF distinct_all_sizes m])
    ultimately show "files ?w2 p \<noteq> None \<and> decoded_size ?w2 p = decoded_size w1 p"
      by simp
  qed
  ultimately show ?thesis by blast
qed

theorem second_run_same_dimensions_witness:
  "\<exists>w1 w2. generate_icons world_ready = Inr w1 \<and> generate_icons w1 = Inr w2 \<and>
     (''ios/AppIcon-512@2x.png'', 1024) \<in> set all_sizes \<and>
     files w2 ''ios/AppIcon-512@2x.png'' \<noteq> None \<and>
     decoded_size w2 ''ios/AppIcon-512@2x.png'' = decoded_size w1 ''ios/AppIcon-512@2x.png'' \<and>
     decoded_size w1 ''ios/AppIcon-512@2x.png'' = Some (1024, 1024)"
proof -
  let ?w1 = "commit (desktop_content source_512x300) all_sizes world_ready"
  have m: "(''ios/AppIcon-512@2x.png'', 1024) \<in> set all_sizes"
    by (simp add: all_sizes_def ios_sizes_items)
  from second_run_same_dimensions [OF generate_icons_ready]
  obtain w2 where run: "generate_icons ?w1 = Inr w2"
    and same: "\<forall>(p, s)\<in>set all_sizes. files w2 p \<noteq> None \<and> decoded_size w2 p = decoded_size ?w1 p"
    by blast
  from same m have a: "files w2 ''ios/AppIcon-512@2x.png'' \<noteq> None"
    and b: "decoded_size w2 ''ios/AppIcon-512@2x.png'' = decoded_size ?w1 ''ios/AppIcon-512@2x.png''"
    by fastforce+
  have c: "decoded_size ?w1 ''ios/AppIcon-512@2x.png'' = Some (1024, 1024)"
    by (rule committed_entry_size [OF distinct_all_sizes m])
  from generate_icons_ready run m a b c show ?thesis by blast
qed

section \<open>Reordering the entries\<close>

lemma update_fresh: "k \<notin> fst ` set al \<Longrightarrow> AList.update k v al = al @ [(k, v)]"
  by (induction al) auto

lemma foldl_update_distinct:
  "distinct (map fst (acc @ kvs)) \<Longrightarrow>
   foldl (\<lambda>d (k, v). AList.update k v d) acc kvs = acc @ kvs"
proof (induction kvs arbitrary: acc)
  case Nil
  show ?case by simp
next
  case (Cons kv kvs)
  obtain k v where kv: "kv = (k, v)" by (cases kv)
  from Cons.prems have fresh: "k \<notin> fst ` set acc"
    by (auto simp: kv)
  from Cons.prems have "distinct (map fst ((acc @ [(k, v)]) @ kvs))"
    by (simp add: kv)
  from Cons.IH [OF this] show ?case
    by (simp add: kv update_fresh [OF fresh])
qed

lemma dict_literal_distinct: "distinct (map fst kvs) \<Longrightarrow> dict_literal kvs = kvs"
  using foldl_update_distinct [of "[]" kvs] by (simp add: dict_literal_def)

lemma generate_icons_tables_own: "generate_icons_tables sizes ios_sizes store_sizes w = generate_icons w"
  unfolding generate_icons_tables_def generate_icons_def
    dict_literal_distinct [OF distinct_sizes] dict_literal_distinct [OF distinct_ios_sizes]
    dict_literal_distinct [OF distinct_store_sizes]
  by (rule refl)

lemma plain_content_observed:
  assumes "regular e"
  shows "content_format (plain_content im e) = content_format (desktop_content im e)"
    and "content_size (plain_content im e) = content_size (desktop_content im e)"
proof -
  show "content_format (plain_content im e) = content_format (desktop_content im e)"
    by (simp add: content_format_def plain_content_def desktop_content_def)
  show "content_size (plain_content im e) = content_size (desktop_content im e)"
  proof (cases "e = (''icon.ico'', 32)")
    case True
    then show ?thesis
      by (simp add: content_size_def plain_content_def desktop_content_def area_def)
  next
    case False
    with assms show ?thesis by (simp add: content_agree)
  qed
qed

lemma permuted_tables:
  assumes "mset (t1 @ t2 @ t3) = mset all_sizes"
  shows "set (t1 @ t2 @ t3) = set all_sizes" and "distinct (map fst (t1 @ t2 @ t3))"
proof -
  show "set (t1 @ t2 @ t3) = set all_sizes"
    using assms by (rule mset_eq_setD)
  have "mset (map fst (t1 @ t2 @ t3)) = mset (map fst all_sizes)"
    using assms by (metis mset_map)
  from mset_eq_imp_distinct_iff [OF this] distinct_all_sizes
  show "distinct (map fst (t1 @ t2 @ t3))" by simp
qed

text \<open>
  The reordered script in closed form: the entries of the first table are written by the
  first loop's body, the others by the body without the branch.
\<close>

lemma generate_icons_tables_succeeds:
  assumes perm: "mset (t1 @ t2 @ t3) = mset all_sizes"
    and im: "img_open ''icon.png'' w = Inr im"
    and wr: "\<forall>e\<in>set all_sizes. writable w (fst e)"
  shows "generate_icons_tables t1 t2 t3 w =
    Inr (commit (\<lambda>e. if e \<in> set t1 then desktop_content im e else plain_content im e)
          (t1 @ t2 @ t3) w)"
proof -
  let ?h = "\<lambda>e. if e \<in> set t1 then desktop_content im e else plain_content im e"
  note st = permuted_tables [OF perm]
  have d: "distinct (map fst t1)" "distinct (map fst t2)" "distinct (map fst t3)"
    using st(2) by simp_all
  have reg: "list_all regular t1" "list_all regular t2" "list_all regular t3"
    using st(1) regular_all_sizes by (auto simp: list_all_iff)
  have w: "\<forall>e\<in>set t1. writable w (fst e)" "\<forall>e\<in>set t2. writable w (fst e)"
    "\<forall>e\<in>set t3. writable w (fst e)"
    using st(1) wr by auto
  have disj: "e \<notin> set t1" if "e \<in> set (t2 @ t3)" for e
    using fst_disjoint_append [of t1 "t2 @ t3" e] st(2) that by (auto simp: image_iff)
  have c1: "commit (desktop_content im) t1 w = commit ?h t1 w"
    by (rule commit_cong) simp
  have c2: "commit (plain_content im) t2 v = commit ?h t2 v" for v
    by (rule commit_cong) (simp add: disj)
  have c3: "commit (plain_content im) t3 v = commit ?h t3 v" for v
    by (rule commit_cong) (simp add: disj)
  have r1: "for_items (desktop_body im) t1 w = Inr (commit ?h t1 w)"
    by (simp add: for_items_regular_desktop [OF reg(1)] run_entries_ok [OF w(1)] c1)
  have r2: "for_items (plain_body im) t2 (commit ?h t1 w) = Inr (commit ?h t2 (commit ?h t1 w))"
    using w(2) by (simp add: for_items_regular_plain [OF reg(2)] run_entries_ok c2)
  have r3: "for_items (plain_body im) t3 (commit ?h t2 (commit ?h t1 w)) =
      Inr (commit ?h t3 (commit ?h t2 (commit ?h t1 w)))"
    using w(3) by (simp add: for_items_regular_plain [OF reg(3)] run_entries_ok c3)
  show ?thesis
    by (simp only: generate_icons_tables_def im sum.case dict_literal_distinct [OF d(1)]
        dict_literal_distinct [OF d(2)] dict_literal_distinct [OF d(3)] r1 r2 r3 commit_append)
qed

lemma reordered_tables: "mset (store_sizes @ rev sizes @ ios_sizes) = mset all_sizes"
  by (simp add: all_sizes_def ac_simps)

lemma square_of_source_32:
  "square_of source_512x300 32 =
     \<lparr>isize = (32, 32), pixel_data = Resampled (Original 0) (32, 32)\<rparr>"
  by (simp add: square_of_def source_512x300_def)

lemma icon_in_all_sizes: "(''icon.ico'', 32) \<in> set all_sizes"
  by (simp add: all_sizes_def sizes_items)

lemma only_icon_entry:
  assumes "e \<in> set all_sizes" and "fst e = ''icon.ico''"
  shows "e = (''icon.ico'', 32)"
  using entry_ico_iff(2) [of "fst e" "snd e"] assms by (cases e) simp

lemma icon_file_script:
  "files (final_world (generate_icons world_ready)) ''icon.ico'' =
     Some (Ico [\<lparr>isize = (32, 32), pixel_data = Resampled (Original 0) (32, 32)\<rparr>])"
  using committed_entry [OF distinct_all_sizes icon_in_all_sizes, of source_512x300 world_ready]
  by (simp add: generate_icons_ready final_world_def desktop_content_def square_of_source_32)

lemma icon_run_moved:
  "generate_icons_tables store_sizes (rev sizes) ios_sizes world_ready =
     Inr (commit (\<lambda>e. if e \<in> set store_sizes then desktop_content source_512x300 e
                       else plain_content source_512x300 e)
           (store_sizes @ rev sizes @ ios_sizes) world_ready)"
  by (rule generate_icons_tables_succeeds [OF reordered_tables img_open_ready all_writable_ready])

lemma icon_file_moved:
  "files (final_world (generate_icons_tables store_sizes (rev sizes) ios_sizes world_ready))
     ''icon.ico'' =
     Some (Ico [\<lparr>isize = (16, 16),
                  pixel_data = Resampled (Resampled (Original 0) (32, 32)) (16, 16)\<rparr>,
                \<lparr>isize = (24, 24),
                  pixel_data = Resampled (Resampled (Original 0) (32, 32)) (24, 24)\<rparr>,
                \<lparr>isize = (32, 32), pixel_data = Resampled (Original 0) (32, 32)\<rparr>])"
proof -
  let ?h = "\<lambda>e. if e \<in> set store_sizes then desktop_content source_512x300 e
                 else plain_content source_512x300 e"
  let ?T = "store_sizes @ rev sizes @ ios_sizes"
  have m: "(''icon.ico'', 32) \<in> set ?T"
    by (simp add: sizes_items)
  have "files (commit ?h ?T world_ready) (fst (''icon.ico'', 32::nat)) = Some (?h (''icon.ico'', 32))"
    using permuted_tables(2) [OF reordered_tables] m by (rule files_commit_entry)
  then have "files (commit ?h ?T world_ready) ''icon.ico'' =
      Some (plain_content source_512x300 (''icon.ico'', 32))"
    using icon_not_store by simp
  then show ?thesis
    unfolding icon_run_moved by (simp add: final_world_def plain_content_def square_of_source_32)
qed

text \<open>
  C6, as stated, fails. Take the script's entries with the desktop table moved to the
  second loop: the Windows Store entries first, then the desktop entries in reverse,
  then the iOS entries. Both runs succeed on the same source, but they do not leave the
  same files: \<^verbatim>\<open>icon.ico\<close> holds one frame of 32 by 32 after the script's run and
  three frames (16, 24 and 32) after the reordered one, because the second loop calls
  \<^verbatim>\<open>save\<close> without \<^verbatim>\<open>format\<close> and \<^verbatim>\<open>sizes\<close> and the ICO encoder then
  embeds its default frames.
\<close>

theorem reordering_changes_icon_file:
  "mset (store_sizes @ rev sizes @ ios_sizes) = mset all_sizes \<and>
   \<not> isl (generate_icons world_ready) \<and>
   \<not> isl (generate_icons_tables store_sizes (rev sizes) ios_sizes world_ready) \<and>
   files (final_world (generate_icons world_ready)) ''icon.ico'' =
     Some (Ico [\<lparr>isize = (32, 32), pixel_data = Resampled (Original 0) (32, 32)\<rparr>]) \<and>
   files (final_world (generate_icons_tables store_sizes (rev sizes) ios_sizes world_ready))
     ''icon.ico'' =
     Some (Ico [\<lparr>isize = (16, 16),
                  pixel_data = Resampled (Resampled (Original 0) (32, 32)) (16, 16)\<rparr>,
                \<lparr>isize = (24, 24),
                  pixel_data = Resampled (Resampled (Original 0) (32, 32)) (24, 24)\<rparr>,
                \<lparr>isize = (32, 32), pixel_data = Resampled (Original 0) (32, 32)\<rparr>]) \<and>
   files (final_world (generate_icons_tables store_sizes (rev sizes) ios_sizes world_ready))
     ''icon.ico'' \<noteq>
   files (final_world (generate_icons world_ready)) ''icon.ico''"
proof -
  have a: "\<not> isl (generate_icons world_ready)"
    by (simp add: generate_icons_ready)
  have b: "\<not> isl (generate_icons_tables store_sizes (rev sizes) ios_sizes world_ready)"
    by (simp add: icon_run_moved)
  have c: "files (final_world (generate_icons_tables store_sizes (rev sizes) ios_sizes world_ready))
     ''icon.ico'' \<noteq>
   files (final_world (generate_icons world_ready)) ''icon.ico''"
    unfolding icon_file_script icon_file_moved by simp
  show ?thesis
    by (intro conjI) (rule reordered_tables a b icon_file_script icon_file_moved c)+
qed

text \<open>
  C6, amended. Let the thirty entries be spread over the three tables in any other way
  and order. When the script's own run succeeds, the reordered run succeeds too, and:
  every file other than \<^verbatim>\<open>icon.ico\<close> is the same file; \<^verbatim>\<open>icon.ico\<close> is in
  both worlds an ICO file that decodes to 32 by 32; where \<^verbatim>\<open>icon.ico\<close> stays in
  the first table all files are the same, and where it is moved to another table it
  holds three frames (16, 24 and 32) instead of one; the progress lines are the same
  lines, only their order may differ.
\<close>

theorem reordering_entries_changes_only_icon_frames:
  assumes "mset (t1 @ t2 @ t3) = mset all_sizes" and "generate_icons w = Inr w'"
  shows "\<exists>w''. generate_icons_tables t1 t2 t3 w = Inr w'' \<and>
    (\<forall>p. p \<noteq> ''icon.ico'' \<longrightarrow> files w'' p = files w' p) \<and>
    file_format w'' ''icon.ico'' = Some ICO \<and> file_format w' ''icon.ico'' = Some ICO \<and>
    decoded_size w'' ''icon.ico'' = Some (32, 32) \<and>
    decoded_size w' ''icon.ico'' = Some (32, 32) \<and>
    ((''icon.ico'', 32) \<in> set t1 \<longrightarrow> files w'' = files w') \<and>
    ((''icon.ico'', 32) \<notin> set t1 \<longrightarrow>
       (\<exists>a b c. files w'' ''icon.ico'' = Some (Ico [a, b, c]) \<and>
          isize a = (16, 16) \<and> isize b = (24, 24) \<and> isize c = (32, 32)) \<and>
       (\<exists>c. files w' ''icon.ico'' = Some (Ico [c]) \<and> isize c = (32, 32))) \<and>
    mset (stdout w'') = mset (stdout w')"
proof -
  from assms(2) obtain im where im: "img_open ''icon.png'' w = Inr im"
    and wr: "\<forall>e\<in>set all_sizes. writable w (fst e)"
    and w': "w' = commit (desktop_content im) all_sizes w"
    by (rule generate_icons_Inr)
  let ?icon = "(''icon.ico'', 32::nat)"
  let ?h = "\<lambda>e. if e \<in> set t1 then desktop_content im e else plain_content im e"
  let ?T = "t1 @ t2 @ t3"
  let ?w'' = "commit ?h ?T w"
  note st = permuted_tables [OF assms(1)]
  have run: "generate_icons_tables t1 t2 t3 w = Inr ?w''"
    by (rule generate_icons_tables_succeeds [OF assms(1) im wr])
  have entry: "files ?w'' (fst e) = Some (?h e) \<and> files w' (fst e) = Some (desktop_content im e)"
    if "e \<in> set all_sizes" for e
  proof
    show "files ?w'' (fst e) = Some (?h e)"
      using st(2) by (rule files_commit_entry) (simp only: st(1) that)
    show "files w' (fst e) = Some (desktop_content im e)"
      unfolding w' using distinct_all_sizes that by (rule files_commit_entry)
  qed
  have other: "files ?w'' p = files w' p" if "p \<notin> fst ` set all_sizes" for p
  proof -
    have "p \<notin> fst ` set ?T"
      unfolding st(1) by (rule that)
    then have "files ?w'' p = files w p" by (rule files_commit_other)
    moreover from that have "files w' p = files w p"
      unfolding w' by (rule files_commit_other)
    ultimately show ?thesis by simp
  qed
  have same: "files ?w'' p = files w' p" if "p \<noteq> ''icon.ico'' \<or> ?icon \<in> set t1" for p
  proof (cases "p \<in> fst ` set all_sizes")
    case True
    then obtain e where e: "e \<in> set all_sizes" and p: "p = fst e" by auto
    have "?h e = desktop_content im e"
    proof (cases "e = ?icon")
      case True
      with that p show ?thesis by auto
    next
      case False
      with content_agree [OF regular_entry [OF e] False] show ?thesis by simp
    qed
    with entry [OF e] show ?thesis by (simp add: p)
  next
    case False
    then show ?thesis by (rule other)
  qed
  have a: "\<forall>p. p \<noteq> ''icon.ico'' \<longrightarrow> files ?w'' p = files w' p"
    using same by blast
  have b: "?icon \<in> set t1 \<longrightarrow> files ?w'' = files w'"
    using same by blast
  have fi: "files ?w'' ''icon.ico'' = Some (?h ?icon)"
    and fi': "files w' ''icon.ico'' = Some (desktop_content im ?icon)"
    using entry [OF icon_in_all_sizes] by simp_all
  have obs: "content_format (?h ?icon) = Some ICO" "content_size (?h ?icon) = Some (32, 32)"
    using plain_content_observed [OF regular_entry [OF icon_in_all_sizes], of im]
    by (simp_all add: content_format_desktop content_size_desktop)
  have c: "file_format ?w'' ''icon.ico'' = Some ICO" "file_format w' ''icon.ico'' = Some ICO"
    "decoded_size ?w'' ''icon.ico'' = Some (32, 32)" "decoded_size w' ''icon.ico'' = Some (32, 32)"
    using obs
    by (simp_all add: file_format_def decoded_size_def fi fi' content_format_desktop
        content_size_desktop)
  have d: "?icon \<notin> set t1 \<longrightarrow>
       (\<exists>a b c. files ?w'' ''icon.ico'' = Some (Ico [a, b, c]) \<and>
          isize a = (16, 16) \<and> isize b = (24, 24) \<and> isize c = (32, 32)) \<and>
       (\<exists>c. files w' ''icon.ico'' = Some (Ico [c]) \<and> isize c = (32, 32))"
    by (simp add: fi fi' plain_content_def desktop_content_def)
  have "mset (map progress_line ?T) = mset (map progress_line all_sizes)"
    using assms(1) by (metis mset_map)
  then have e: "mset (stdout ?w'') = mset (stdout w')"
    by (simp only: w' stdout_commit mset_append)
  have "generate_icons_tables t1 t2 t3 w = Inr ?w'' \<and>
    (\<forall>p. p \<noteq> ''icon.ico'' \<longrightarrow> files ?w'' p = files w' p) \<and>
    file_format ?w'' ''icon.ico'' = Some ICO \<and> file_format w' ''icon.ico'' = Some ICO \<and>
    decoded_size ?w'' ''icon.ico'' = Some (32, 32) \<and>
    decoded_size w' ''icon.ico'' = Some (32, 32) \<and>
    (?icon \<in> set t1 \<longrightarrow> files ?w'' = files w') \<and>
    (?icon \<notin> set t1 \<longrightarrow>
       (\<exists>a b c. files ?w'' ''icon.ico'' = Some (Ico [a, b, c]) \<and>
          isize a = (16, 16) \<and> isize b = (24, 24) \<and> isize c = (32, 32)) \<and>
       (\<exists>c. files w' ''icon.ico'' = Some (Ico [c]) \<and> isize c = (32, 32))) \<and>
    mset (stdout ?w'') = mset (stdout w')"
    by (intro conjI) (rule run a b c d e)+
  then show ?thesis by (rule exI)
qed

theorem reordering_entries_changes_only_icon_frames_witness:
  "mset (store_sizes @ rev sizes @ ios_sizes) = mset all_sizes \<and>
   (''icon.ico'', 32) \<notin> set store_sizes \<and>
   (\<exists>w' w''. generate_icons world_ready = Inr w' \<and>
      generate_icons_tables store_sizes (rev sizes) ios_sizes world_ready = Inr w'' \<and>
      files w'' ''StoreLogo.png'' = files w' ''StoreLogo.png'' \<and>
      file_format w'' ''icon.ico'' = Some ICO \<and> file_format w' ''icon.ico'' = Some ICO \<and>
      decoded_size w'' ''icon.ico'' = Some (32, 32) \<and>
      decoded_size w' ''icon.ico'' = Some (32, 32) \<and>
      (\<exists>a b c. files w'' ''icon.ico'' = Some (Ico [a, b, c]) \<and>
         isize a = (16, 16) \<and> isize b = (24, 24) \<and> isize c = (32, 32)) \<and>
      (\<exists>c. files w' ''icon.ico'' = Some (Ico [c]) \<and> isize c = (32, 32)) \<and>
      mset (stdout w'') = mset (stdout w'))"
proof -
  let ?w' = "commit (desktop_content source_512x300) all_sizes world_ready"
  from reordering_entries_changes_only_icon_frames [OF reordered_tables generate_icons_ready]
  obtain w'' where all:
    "generate_icons_tables store_sizes (rev sizes) ios_sizes world_ready = Inr w'' \<and>
     (\<forall>p. p \<noteq> ''icon.ico'' \<longrightarrow> files w'' p = files ?w' p) \<and>
     file_format w'' ''icon.ico'' = Some ICO \<and> file_format ?w' ''icon.ico'' = Some ICO \<and>
     decoded_size w'' ''icon.ico'' = Some (32, 32) \<and>
     decoded_size ?w' ''icon.ico'' = Some (32, 32) \<and>
     ((''icon.ico'', 32) \<in> set store_sizes \<longrightarrow> files w'' = files ?w') \<and>
     ((''icon.ico'', 32) \<notin> set store_sizes \<longrightarrow>
        (\<exists>a b c. files w'' ''icon.ico'' = Some (Ico [a, b, c]) \<and>
           isize a = (16, 16) \<and> isize b = (24, 24) \<and> isize c = (32, 32)) \<and>
        (\<exists>c. files ?w' ''icon.ico'' = Some (Ico [c]) \<and> isize c = (32, 32))) \<and>
     mset (stdout w'') = mset (stdout ?w')" ..
  note run = all [THEN conjunct1]
  note r1 = all [THEN conjunct2]
  note eq = r1 [THEN conjunct1]
  note r2 = r1 [THEN conjunct2]
  note o1 = r2 [THEN conjunct1]
  note r3 = r2 [THEN conjunct2]
  note o2 = r3 [THEN conjunct1]
  note r4 = r3 [THEN conjunct2]
  note o3 = r4 [THEN conjunct1]
  note r5 = r4 [THEN conjunct2]
  note o4 = r5 [THEN conjunct1]
  note r6 = r5 [THEN conjunct2]
  note r7 = r6 [THEN conjunct2]
  note moved = r7 [THEN conjunct1, THEN mp, OF icon_not_store]
  note out = r7 [THEN conjunct2]
  have s: "files w'' ''StoreLogo.png'' = files ?w' ''StoreLogo.png''"
    by (rule eq [rule_format]) simp
  have body: "generate_icons world_ready = Inr ?w' \<and>
      generate_icons_tables store_sizes (rev sizes) ios_sizes world_ready = Inr w'' \<and>
      files w'' ''StoreLogo.png'' = files ?w' ''StoreLogo.png'' \<and>
      file_format w'' ''icon.ico'' = Some ICO \<and> file_format ?w' ''icon.ico'' = Some ICO \<and>
      decoded_size w'' ''icon.ico'' = Some (32, 32) \<and>
      decoded_size ?w' ''icon.ico'' = Some (32, 32) \<and>
      (\<exists>a b c. files w'' ''icon.ico'' = Some (Ico [a, b, c]) \<and>
         isize a = (16, 16) \<and> isize b = (24, 24) \<and> isize c = (32, 32)) \<and>
      (\<exists>c. files ?w' ''icon.ico'' = Some (Ico [c]) \<and> isize c = (32, 32)) \<and>
      mset (stdout w'') = mset (stdout ?w')"
    by (intro conjI)
      (rule generate_icons_ready run s o1 o2 o3 o4 moved [THEN conjunct1]
        moved [THEN conjunct2] out)+
  have ex: "\<exists>w' w''. generate_icons world_ready = Inr w' \<and>
      generate_icons_tables store_sizes (rev sizes) ios_sizes world_ready = Inr w'' \<and>
      files w'' ''StoreLogo.png'' = files w' ''StoreLogo.png'' \<and>
      file_format w'' ''icon.ico'' = Some ICO \<and> file_format w' ''icon.ico'' = Some ICO \<and>
      decoded_size w'' ''icon.ico'' = Some (32, 32) \<and>
      decoded_size w' ''icon.ico'' = Some (32, 32) \<and>
      (\<exists>a b c. files w'' ''icon.ico'' = Some (Ico [a, b, c]) \<and>
         isize a = (16, 16) \<and> isize b = (24, 24) \<and> isize c = (32, 32)) \<and>
      (\<exists>c. files w' ''icon.ico'' = Some (Ico [c]) \<and> isize c = (32, 32)) \<and>
      mset (stdout w'') = mset (stdout w')"
    by (rule exI [of _ ?w'], rule exI [of _ w''], rule body)
  show ?thesis
    by (intro conjI) (rule reordered_tables icon_not_store ex)+
qed

end
